theory Spec2Isabelle
  imports Complex_Main
begin

section \<open>The bandit simulation of \<open>bandito.py\<close>\<close>

text \<open>
  The class \<open>Bandit\<close> is embedded as a record with one field per attribute
  (\<open>self._x\<close> is \<open>self_x\<close>), its methods as functions that pass the object
  explicitly. Python integers are \<open>int\<close>. A Python float is the real number
  it stands for; the float additions of \<open>itertools.accumulate\<close> (line 99) round
  as the machine does, and the comparisons of floats are exact. The three
  metrics of lines 117 to 119 are computed without rounding: the claims read
  how many values the histories hold, not the values.

  The four policy functions come from the module \<open>banditfunctions\<close>, and the
  draws from \<open>random.random\<close>; both may consult and advance hidden state (the
  random generator). That state is the type variable \<open>'w\<close>: every such call
  takes the current world and returns its result with the next world. The
  policy functions are taken to return fresh values and not to mutate the
  lists they are handed.
\<close>

subsection \<open>Errors\<close>

text \<open>
  The exceptions the code can raise by itself, each tagged with the line of
  \<open>bandito.py\<close> that raises it.
\<close>

datatype error = IndexError nat | ValueError nat

subsection \<open>The object\<close>

record 'w bandit =
  self_arms :: int
  self_turns :: int
  self_assetstock :: int
  self_complete :: bool
  self_payoff_fxn :: "'w \<Rightarrow> real \<times> 'w"
  self_payoffs :: "real list"
  self_turbulence_fxn :: "real list \<Rightarrow> ('w \<Rightarrow> real \<times> 'w) \<Rightarrow> real \<Rightarrow> 'w \<Rightarrow> real list \<times> 'w"
  self_turbulence :: real
  self_strategy_fxn :: "real list \<Rightarrow> real \<Rightarrow> 'w \<Rightarrow> real list \<times> 'w"
  self_strategy :: real
  self_belief_fxn :: "real list \<Rightarrow> int list \<Rightarrow> int list \<Rightarrow> 'w \<Rightarrow> real list \<times> 'w"
  self_tries :: "int list"
  self_wins :: "int list"
  self_beliefs :: "real list"
  self_score :: "int list"
  self_knowledge :: "real list"
  self_opinion :: "real list"
  self_probexplore :: "real list"

text \<open>
  The result of a method that may raise: \<open>Inl\<close> carries the exception together
  with the object and the world as they are when it is raised (the attributes
  assigned before the raise keep their new values), \<open>Inr\<close> the object and the
  world after a normal return.
\<close>

type_synonym 'w outcome = "(error \<times> 'w bandit \<times> 'w) + ('w bandit \<times> 'w)"

subsection \<open>Library functions used by the loop\<close>

text \<open>
  Python's \<open>float\<close> is the IEEE 754 binary64 format: 53 significant bits, a
  unit in the last place that is a power of two with exponent at least -1074,
  results rounded to the nearest representable value and, on a tie, to the one
  with an even significand. \<open>round_half_even\<close> rounds to an integer in that
  way, \<open>ulp_exponent x\<close> is the exponent of the unit in the last place at \<open>x\<close>,
  and \<open>round64\<close> rounds a real to a float; a real \<open>x\<close> is a float when
  \<open>round64 x = x\<close>. A result of magnitude 2 to the power 1024 or more, which
  the machine replaces by \<open>inf\<close>, is kept as the rounded real: like \<open>inf\<close> it
  is above every float.
\<close>

definition round_half_even :: "real \<Rightarrow> int" where
  "round_half_even q =
     (let f = \<lfloor>q\<rfloor> in
      if q - of_int f < 1 / 2 then f
      else if 1 / 2 < q - of_int f then f + 1
      else if even f then f else f + 1)"

definition ulp_exponent :: "real \<Rightarrow> int" where
  "ulp_exponent x = max (\<lfloor>log 2 \<bar>x\<bar>\<rfloor> - 52) (- 1074)"

definition round64 :: "real \<Rightarrow> real" where
  "round64 x =
     (if x = 0 then 0
      else of_int (round_half_even (x / 2 powr of_int (ulp_exponent x)))
             * 2 powr of_int (ulp_exponent x))"

text \<open>The addition of two floats.\<close>

definition float_add :: "real \<Rightarrow> real \<Rightarrow> real" where
  "float_add x y = round64 (x + y)"

text \<open>
  \<open>itertools.accumulate\<close>: the running sums, the first one being the first
  element itself and each later one the float sum of the one before and the
  next element.
\<close>

fun accumulate_from :: "real \<Rightarrow> real list \<Rightarrow> real list" where
  "accumulate_from tot [] = []"
| "accumulate_from tot (x # xs) = float_add tot x # accumulate_from (float_add tot x) xs"

fun accumulate :: "real list \<Rightarrow> real list" where
  "accumulate [] = []"
| "accumulate (x # xs) = x # accumulate_from x xs"

text \<open>
  \<open>bisect.bisect\<close> is \<open>bisect_right\<close>: a binary search between \<open>lo\<close> and \<open>hi\<close>
  that moves \<open>hi\<close> down when \<open>x < a[mid]\<close> and \<open>lo\<close> up otherwise.
\<close>

function bisect_loop :: "'a::linorder list \<Rightarrow> 'a \<Rightarrow> nat \<Rightarrow> nat \<Rightarrow> nat" where
  "bisect_loop a x lo hi =
     (if lo < hi then
        (let mid = (lo + hi) div 2 in
         if x < a ! mid then bisect_loop a x lo mid
         else bisect_loop a x (mid + 1) hi)
      else lo)"
  by pat_completeness auto
termination
  by (relation "measure (\<lambda>(a, x, lo, hi). hi - lo)") auto

declare bisect_loop.simps [simp del]

definition bisect :: "'a::linorder list \<Rightarrow> 'a \<Rightarrow> nat" where
  "bisect a x = bisect_loop a x 0 (length a)"

text \<open>\<open>max\<close> of a non-empty list, scanning from the left.\<close>

definition max_list :: "real list \<Rightarrow> real" where
  "max_list xs = fold max (tl xs) (hd xs)"

text \<open>\<open>xs[-1]\<close>, which raises \<open>IndexError\<close> on the empty list.\<close>

definition last_item :: "nat \<Rightarrow> 'a list \<Rightarrow> error + 'a" where
  "last_item line xs = (if xs = [] then Inl (IndexError line) else Inr (last xs))"

subsection \<open>Construction\<close>

text \<open>
  \<open>[self._payoff_fxn() for i in range(arms)]\<close>: one call per arm, in order;
  \<open>range\<close> of a non-positive number is empty.
\<close>

fun draw_payoffs :: "nat \<Rightarrow> ('w \<Rightarrow> real \<times> 'w) \<Rightarrow> 'w \<Rightarrow> real list \<times> 'w" where
  "draw_payoffs 0 f w = ([], w)"
| "draw_payoffs (Suc n) f w =
     (let (p, w1) = f w;
          (ps, w2) = draw_payoffs n f w1
      in (p # ps, w2))"

text \<open>
  \<open>Bandit.__init__\<close>. It has no \<open>raise\<close> and no check of its arguments; the
  result is a sum only so that its callers can be told that it never fails.
\<close>

definition init ::
  "int \<Rightarrow> int \<Rightarrow> ('w \<Rightarrow> real \<times> 'w) \<Rightarrow>
   (real list \<Rightarrow> ('w \<Rightarrow> real \<times> 'w) \<Rightarrow> real \<Rightarrow> 'w \<Rightarrow> real list \<times> 'w) \<Rightarrow>
   (real list \<Rightarrow> real \<Rightarrow> 'w \<Rightarrow> real list \<times> 'w) \<Rightarrow> real \<Rightarrow>
   (real list \<Rightarrow> int list \<Rightarrow> int list \<Rightarrow> 'w \<Rightarrow> real list \<times> 'w) \<Rightarrow> real \<Rightarrow>
   'w \<Rightarrow> error + ('w bandit \<times> 'w)" where
  "init arms turns payoff_fxn turbulence_fxn strategy_fxn turbulence belief_fxn strategy w =
     (let (ps, w1) = draw_payoffs (nat arms) payoff_fxn w in
      Inr (\<lparr> self_arms = arms,
             self_turns = turns,
             self_assetstock = 0,
             self_complete = False,
             self_payoff_fxn = payoff_fxn,
             self_payoffs = ps,
             self_turbulence_fxn = turbulence_fxn,
             self_turbulence = turbulence,
             self_strategy_fxn = strategy_fxn,
             self_strategy = strategy,
             self_belief_fxn = belief_fxn,
             self_tries = replicate (nat arms) 0,
             self_wins = replicate (nat arms) 0,
             self_beliefs = replicate (nat arms) (1 / 2),
             self_score = [],
             self_knowledge = [],
             self_opinion = [],
             self_probexplore = [] \<rparr>, w1))"

subsection \<open>One turn of the loop of \<open>simulate\<close>\<close>

text \<open>
  Lines 95 to 101: turbulence, the strategy's probabilities, the draw and the
  search. The result is the object with the new payoffs, the probabilities,
  the chosen index and the world.
\<close>

definition turn_choice ::
  "('w \<Rightarrow> real \<times> 'w) \<Rightarrow> 'w bandit \<Rightarrow> 'w \<Rightarrow> 'w bandit \<times> real list \<times> nat \<times> 'w" where
  "turn_choice rand b w =
     (let (p, w1) = self_turbulence_fxn b (self_payoffs b) (self_payoff_fxn b) (self_turbulence b) w;
          b1 = b\<lparr>self_payoffs := p\<rparr>;
          (choice_probabilities, w2) = self_strategy_fxn b1 (self_beliefs b1) (self_strategy b1) w1;
          cumdist = accumulate choice_probabilities;
          (x, w3) = rand w2;
          choice = bisect cumdist x
      in (b1, choice_probabilities, choice, w3))"

text \<open>
  Lines 104 to 109: the try is counted, then the second draw is compared with
  the payoff of the chosen arm. Each of the three subscripts raises
  \<open>IndexError\<close> when the index is not below the length of its list; the draw
  of line 105 is made before \<open>self._payoffs[choice]\<close> is evaluated.
\<close>

definition turn_outcome ::
  "('w \<Rightarrow> real \<times> 'w) \<Rightarrow> nat \<Rightarrow> 'w bandit \<Rightarrow> 'w \<Rightarrow> 'w outcome" where
  "turn_outcome rand choice b w =
     (if length (self_tries b) \<le> choice then Inl (IndexError 104, b, w)
      else
        (let b1 = b\<lparr>self_tries := (self_tries b)[choice := self_tries b ! choice + 1]\<rparr>;
             (y, w1) = rand w
         in if length (self_payoffs b1) \<le> choice then Inl (IndexError 105, b1, w1)
            else if y < self_payoffs b1 ! choice then
              (if length (self_wins b1) \<le> choice then Inl (IndexError 106, b1, w1)
               else Inr (b1\<lparr>self_wins := (self_wins b1)[choice := self_wins b1 ! choice + 1],
                            self_assetstock := self_assetstock b1 + 1\<rparr>, w1))
            else Inr (b1\<lparr>self_assetstock := self_assetstock b1 - 1\<rparr>, w1)))"

text \<open>Line 112: the belief update.\<close>

definition turn_beliefs :: "'w bandit \<Rightarrow> 'w \<Rightarrow> 'w bandit \<times> 'w" where
  "turn_beliefs b w =
     (let (bel, w1) = self_belief_fxn b (self_beliefs b) (self_tries b) (self_wins b) w
      in (b\<lparr>self_beliefs := bel\<rparr>, w1))"

text \<open>
  Lines 116 to 119: the four appends, in this order. The comprehension of line
  117 reads \<open>self._beliefs[i]\<close> and \<open>self._payoffs[i]\<close> for every \<open>i\<close> in
  \<open>range(self._arms)\<close> and raises \<open>IndexError\<close> when one of the lists is
  shorter; line 118 reads the same beliefs, so it cannot raise once line 117
  has not (the division by \<open>self._arms\<close> is only evaluated inside the
  comprehension, where \<open>self._arms\<close> is positive). \<open>max\<close> of line 119 raises
  \<open>ValueError\<close> on an empty sequence.
\<close>

definition turn_metrics :: "real list \<Rightarrow> 'w bandit \<Rightarrow> 'w \<Rightarrow> 'w outcome" where
  "turn_metrics choice_probabilities b w =
     (let b1 = b\<lparr>self_score := self_score b @ [self_assetstock b]\<rparr> in
      if length (self_beliefs b1) < nat (self_arms b1) \<or> length (self_payoffs b1) < nat (self_arms b1)
      then Inl (IndexError 117, b1, w)
      else
        (let b2 = b1\<lparr>self_knowledge := self_knowledge b1 @
                      [1 - sum_list (map (\<lambda>i. (self_beliefs b1 ! i - self_payoffs b1 ! i)\<^sup>2)
                                         [0..<nat (self_arms b1)])]\<rparr>;
             b3 = b2\<lparr>self_opinion := self_opinion b2 @
                      [sum_list (map (\<lambda>i. (self_beliefs b2 ! i
                                            - sum_list (self_beliefs b2) / real_of_int (self_arms b2))\<^sup>2)
                                     [0..<nat (self_arms b2)])]\<rparr>
         in if choice_probabilities = [] then Inl (ValueError 119, b3, w)
            else Inr (b3\<lparr>self_probexplore := self_probexplore b3 @
                           [1 - max_list choice_probabilities]\<rparr>, w)))"

text \<open>The body of the loop, lines 95 to 119.\<close>

definition turn :: "('w \<Rightarrow> real \<times> 'w) \<Rightarrow> 'w bandit \<Rightarrow> 'w \<Rightarrow> 'w outcome" where
  "turn rand b w =
     (let (b1, choice_probabilities, choice, w1) = turn_choice rand b w in
      case turn_outcome rand choice b1 w1 of
        Inl e \<Rightarrow> Inl e
      | Inr (b2, w2) \<Rightarrow>
          (let (b3, w3) = turn_beliefs b2 w2
           in turn_metrics choice_probabilities b3 w3))"

subsection \<open>\<open>simulate\<close> and the accessors\<close>

text \<open>
  \<open>for t in range(n)\<close>: \<open>n\<close> turns one after the other, stopping at the first
  exception.
\<close>

fun run_turns :: "('w \<Rightarrow> real \<times> 'w) \<Rightarrow> nat \<Rightarrow> 'w bandit \<Rightarrow> 'w \<Rightarrow> 'w outcome" where
  "run_turns rand 0 b w = Inr (b, w)"
| "run_turns rand (Suc n) b w =
     (case turn rand b w of
        Inl e \<Rightarrow> Inl e
      | Inr (b1, w1) \<Rightarrow> run_turns rand n b1 w1)"

text \<open>
  \<open>Bandit.simulate\<close>: \<open>range(self._turns)\<close> is empty for a non-positive number
  of turns. The two clock readings and \<open>self._simtime\<close> are left out. The
  method has no \<open>return\<close>: it returns \<open>None\<close>, not the run time that the
  docstring of the class announces.
\<close>

definition simulate :: "('w \<Rightarrow> real \<times> 'w) \<Rightarrow> 'w bandit \<Rightarrow> 'w \<Rightarrow> 'w outcome" where
  "simulate rand b w =
     (case run_turns rand (nat (self_turns b)) b w of
        Inl e \<Rightarrow> Inl e
      | Inr (b1, w1) \<Rightarrow> Inr (b1\<lparr>self_complete := True\<rparr>, w1))"

text \<open>
  The four accessors: the value returned (\<open>None\<close> when the run is not
  complete) or the exception raised, and the object after the call.
\<close>

definition score :: "'w bandit \<Rightarrow> (error + int option) \<times> 'w bandit" where
  "score b =
     (if self_complete b then
        (case last_item 129 (self_score b) of Inl e \<Rightarrow> Inl e | Inr v \<Rightarrow> Inr (Some v), b)
      else (Inr None, b))"

definition knowledge :: "'w bandit \<Rightarrow> (error + real option) \<times> 'w bandit" where
  "knowledge b =
     (if self_complete b then
        (case last_item 136 (self_knowledge b) of Inl e \<Rightarrow> Inl e | Inr v \<Rightarrow> Inr (Some v), b)
      else (Inr None, b))"

definition opinion :: "'w bandit \<Rightarrow> (error + real option) \<times> 'w bandit" where
  "opinion b =
     (if self_complete b then
        (case last_item 142 (self_opinion b) of Inl e \<Rightarrow> Inl e | Inr v \<Rightarrow> Inr (Some v), b)
      else (Inr None, b))"

definition probexplore :: "'w bandit \<Rightarrow> (error + real option) \<times> 'w bandit" where
  "probexplore b =
     (if self_complete b then
        (case last_item 148 (self_probexplore b) of Inl e \<Rightarrow> Inl e | Inr v \<Rightarrow> Inr (Some v), b)
      else (Inr None, b))"

subsection \<open>The state after a number of completed turns\<close>

text \<open>
  What holds of the object once \<open>n\<close> turns have completed since construction:
  the lists of counters have one entry per arm, the tries add up to \<open>n\<close>,
  every history has \<open>n\<close> entries, the asset stock is wins minus losses, no arm
  has more wins than tries, and the last score recorded is the asset stock.
\<close>

definition after_turns :: "nat \<Rightarrow> 'w bandit \<Rightarrow> bool" where
  "after_turns n b \<longleftrightarrow>
     length (self_tries b) = nat (self_arms b) \<and>
     length (self_wins b) = nat (self_arms b) \<and>
     sum_list (self_tries b) = int n \<and>
     length (self_score b) = n \<and>
     length (self_knowledge b) = n \<and>
     length (self_opinion b) = n \<and>
     length (self_probexplore b) = n \<and>
     self_assetstock b = 2 * sum_list (self_wins b) - sum_list (self_tries b) \<and>
     (\<forall>a < length (self_tries b). 0 \<le> self_wins b ! a \<and> self_wins b ! a \<le> self_tries b ! a) \<and>
     (self_score b \<noteq> [] \<longrightarrow> last (self_score b) = self_assetstock b)"

subsection \<open>A deterministic scenario\<close>

text \<open>
  The scenario of the specification's testable properties, used to run the
  definitions: the world is the list of numbers still to be drawn, and both
  the payoff generator and \<open>random.random\<close> take the next one.
\<close>

definition next_draw :: "real list \<Rightarrow> real \<times> real list" where
  "next_draw w = (case w of [] \<Rightarrow> (0, []) | x # xs \<Rightarrow> (x, xs))"

text \<open>A turbulence function that leaves the payoffs as they are.\<close>

definition no_turbulence ::
  "real list \<Rightarrow> (real list \<Rightarrow> real \<times> real list) \<Rightarrow> real \<Rightarrow> real list \<Rightarrow> real list \<times> real list" where
  "no_turbulence p f t w = (p, w)"

text \<open>
  A strategy function that gives every arm the same probability (what the
  softmax yields on equal beliefs).
\<close>

definition uniform_strategy :: "real list \<Rightarrow> real \<Rightarrow> real list \<Rightarrow> real list \<times> real list" where
  "uniform_strategy bel par w = (replicate (length bel) (1 / real (length bel)), w)"

text \<open>
  Modelled from the spec: the default belief function \<open>simplebelief\<close> of the
  module \<open>banditfunctions\<close>, which is not among the sources; the belief in an
  arm is \<open>(wins + 1) / (tries + 2)\<close>.
\<close>

definition simplebelief ::
  "real list \<Rightarrow> int list \<Rightarrow> int list \<Rightarrow> real list \<Rightarrow> real list \<times> real list" where
  "simplebelief bel tr wn w =
     (map (\<lambda>(t, v). (real_of_int v + 1) / (real_of_int t + 2)) (zip tr wn), w)"

text \<open>Two arms, the payoffs 0.9 and 0.1, then the draws 0.5 and 0.05.\<close>

definition scenario_world :: "real list" where
  "scenario_world = [9 / 10, 1 / 10, 1 / 2, 1 / 20]"

definition scenario_bandit :: "int \<Rightarrow> real list bandit" where
  "scenario_bandit turns =
     \<lparr> self_arms = 2,
       self_turns = turns,
       self_assetstock = 0,
       self_complete = False,
       self_payoff_fxn = next_draw,
       self_payoffs = [9 / 10, 1 / 10],
       self_turbulence_fxn = no_turbulence,
       self_turbulence = 0,
       self_strategy_fxn = uniform_strategy,
       self_strategy = 1 / 2,
       self_belief_fxn = simplebelief,
       self_tries = [0, 0],
       self_wins = [0, 0],
       self_beliefs = [1 / 2, 1 / 2],
       self_score = [],
       self_knowledge = [],
       self_opinion = [],
       self_probexplore = [] \<rparr>"

text \<open>The object of the scenario after its first turn.\<close>

definition scenario_after :: "int \<Rightarrow> real list bandit" where
  "scenario_after turns =
     (scenario_bandit turns)
       \<lparr> self_assetstock := 1,
         self_tries := [0, 1],
         self_wins := [0, 1],
         self_beliefs := [1 / 2, 2 / 3],
         self_score := [1],
         self_knowledge := [467 / 900],
         self_opinion := [1 / 72],
         self_probexplore := [1 / 2] \<rparr>"

text \<open>
  A second scenario, with four arms: the strategy function returns the floats
  written \<open>0.1\<close>, \<open>0.5\<close>, \<open>0.3\<close>, \<open>0.1\<close> in Python, whatever the beliefs, and the
  draw is the largest value that \<open>random.random\<close> returns.
\<close>

definition rounding_probabilities :: "real list" where
  "rounding_probabilities =
     [3602879701896397 / 2 ^ 55, 1 / 2, 5404319552844595 / 2 ^ 54, 3602879701896397 / 2 ^ 55]"

definition largest_draw :: real where
  "largest_draw = 9007199254740991 / 2 ^ 53"

definition fixed_strategy :: "real list \<Rightarrow> real \<Rightarrow> real list \<Rightarrow> real list \<times> real list" where
  "fixed_strategy bel par w = (rounding_probabilities, w)"

definition rounding_bandit :: "real list bandit" where
  "rounding_bandit =
     \<lparr> self_arms = 4,
       self_turns = 1,
       self_assetstock = 0,
       self_complete = False,
       self_payoff_fxn = next_draw,
       self_payoffs = [1 / 2, 1 / 2, 1 / 2, 1 / 2],
       self_turbulence_fxn = no_turbulence,
       self_turbulence = 0,
       self_strategy_fxn = fixed_strategy,
       self_strategy = 1 / 2,
       self_belief_fxn = simplebelief,
       self_tries = [0, 0, 0, 0],
       self_wins = [0, 0, 0, 0],
       self_beliefs = [1 / 2, 1 / 2, 1 / 2, 1 / 2],
       self_score = [],
       self_knowledge = [],
       self_opinion = [],
       self_probexplore = [] \<rparr>"

section \<open>Auxiliary facts\<close>

subsection \<open>Lists\<close>

lemma sum_list_bump:
  "i < length xs \<Longrightarrow> sum_list (xs[i := xs ! i + 1]) = sum_list xs + (1::int)"
proof (induction xs arbitrary: i)
  case Nil
  then show ?case by simp
next
  case (Cons a xs)
  then show ?case by (cases i) simp_all
qed

subsection \<open>Rounding to a float\<close>

lemma round_half_even_int: "round_half_even (of_int n) = n"
  by (simp add: round_half_even_def)

lemma round_half_even_bounds: "\<lfloor>q\<rfloor> \<le> round_half_even q \<and> round_half_even q \<le> \<lfloor>q\<rfloor> + 1"
  by (simp add: round_half_even_def Let_def)

lemma round_half_even_mono:
  assumes "q \<le> r"
  shows "round_half_even q \<le> round_half_even r"
proof (cases "\<lfloor>q\<rfloor> = \<lfloor>r\<rfloor>")
  case True
  then show ?thesis using assms by (auto simp: round_half_even_def Let_def)
next
  case False
  then have "\<lfloor>q\<rfloor> + 1 \<le> \<lfloor>r\<rfloor>" using floor_mono [OF assms] by simp
  then show ?thesis
    using round_half_even_bounds [of q] round_half_even_bounds [of r] by linarith
qed

lemma round_half_even_ge: "of_int n \<le> q \<Longrightarrow> n \<le> round_half_even q"
  using round_half_even_mono [of "of_int n" q] by (simp add: round_half_even_int)

lemma round_half_even_le: "q \<le> of_int n \<Longrightarrow> round_half_even q \<le> n"
  using round_half_even_mono [of q "of_int n"] by (simp add: round_half_even_int)

lemma log_bounds:
  assumes "0 < x"
  shows "2 powr of_int \<lfloor>log 2 x\<rfloor> \<le> x" "x < 2 powr (of_int \<lfloor>log 2 x\<rfloor> + 1)"
  using floor_log_eq_powr_iff [of x 2 "\<lfloor>log 2 x\<rfloor>"] assms by simp_all

lemma ulp_exponent_mono:
  assumes "0 < x" "x \<le> y"
  shows "ulp_exponent x \<le> ulp_exponent y"
proof -
  have "log 2 x \<le> log 2 y" using assms by simp
  then have "\<lfloor>log 2 x\<rfloor> \<le> \<lfloor>log 2 y\<rfloor>" by (rule floor_mono)
  then show ?thesis using assms by (simp add: ulp_exponent_def)
qed

lemma round64_pos:
  "0 < x \<Longrightarrow> round64 x = of_int (round_half_even (x / 2 powr of_int (ulp_exponent x)))
             * 2 powr of_int (ulp_exponent x)"
  by (simp add: round64_def)

lemma round64_nonneg:
  assumes "0 \<le> x"
  shows "0 \<le> round64 x"
proof (cases "x = 0")
  case True
  then show ?thesis by (simp add: round64_def)
next
  case False
  then have "0 \<le> x / 2 powr of_int (ulp_exponent x)" using assms by simp
  then have "0 \<le> round_half_even (x / 2 powr of_int (ulp_exponent x))"
    using round_half_even_ge [of 0] by simp
  then show ?thesis using False by (simp add: round64_def)
qed

lemma round64_upper:
  assumes "0 < x"
  shows "round64 x \<le> 2 powr (of_int (ulp_exponent x) + 53)"
proof -
  let ?E = "ulp_exponent x"
  have "\<lfloor>log 2 x\<rfloor> - 52 \<le> ?E" using assms by (simp add: ulp_exponent_def)
  then have "of_int \<lfloor>log 2 x\<rfloor> + 1 \<le> (of_int ?E + 53 :: real)" by linarith
  then have "2 powr (of_int \<lfloor>log 2 x\<rfloor> + 1) \<le> (2::real) powr (of_int ?E + 53)"
    by (rule powr_mono) simp
  with log_bounds(2) [OF assms] have "x \<le> 2 powr (of_int ?E + 53)" by linarith
  also have "(2::real) powr (of_int ?E + 53) = 2 powr of_int ?E * 2 powr 53" by (rule powr_add)
  finally have "x / 2 powr of_int ?E \<le> 2 powr 53"
    by (simp add: field_simps)
  then have "x / 2 powr of_int ?E \<le> of_int (2 ^ 53)" by simp
  then have "round_half_even (x / 2 powr of_int ?E) \<le> 2 ^ 53" by (rule round_half_even_le)
  then have "(of_int (round_half_even (x / 2 powr of_int ?E)) :: real) \<le> of_int (2 ^ 53)"
    by (simp only: of_int_le_iff)
  then have "of_int (round_half_even (x / 2 powr of_int ?E)) * 2 powr of_int ?E
      \<le> of_int (2 ^ 53) * (2::real) powr of_int ?E"
    by (rule mult_right_mono) simp
  also have "of_int (2 ^ 53) * (2::real) powr of_int ?E = 2 powr (of_int ?E + 53)"
    by (simp add: powr_add)
  finally show ?thesis using assms by (simp only: round64_pos)
qed

lemma round64_lower:
  assumes "0 < x" "- 1074 < ulp_exponent x"
  shows "2 powr (of_int (ulp_exponent x) + 52) \<le> round64 x"
proof -
  let ?E = "ulp_exponent x"
  have "?E = \<lfloor>log 2 x\<rfloor> - 52" using assms by (simp add: ulp_exponent_def max_def split: if_splits)
  then have "of_int \<lfloor>log 2 x\<rfloor> = (of_int ?E + 52 :: real)" by simp
  with log_bounds(1) [OF assms(1)] have "2 powr (of_int ?E + 52) \<le> x" by simp
  moreover have "(2::real) powr (of_int ?E + 52) = 2 powr of_int ?E * 2 powr 52" by (rule powr_add)
  ultimately have "2 powr 52 \<le> x / 2 powr of_int ?E"
    by (simp add: field_simps)
  then have "of_int (2 ^ 52) \<le> x / 2 powr of_int ?E" by simp
  then have "2 ^ 52 \<le> round_half_even (x / 2 powr of_int ?E)" by (rule round_half_even_ge)
  then have "(of_int (2 ^ 52) :: real) \<le> of_int (round_half_even (x / 2 powr of_int ?E))"
    by (simp only: of_int_le_iff)
  then have "of_int (2 ^ 52) * (2::real) powr of_int ?E
      \<le> of_int (round_half_even (x / 2 powr of_int ?E)) * 2 powr of_int ?E"
    by (rule mult_right_mono) simp
  moreover have "of_int (2 ^ 52) * (2::real) powr of_int ?E = 2 powr (of_int ?E + 52)"
    by (simp add: powr_add)
  ultimately show ?thesis using assms by (simp only: round64_pos)
qed

lemma round64_mono:
  assumes x: "0 < x" and xy: "x \<le> y"
  shows "round64 x \<le> round64 y"
proof (cases "ulp_exponent x = ulp_exponent y")
  case True
  have y: "0 < y" using x xy by simp
  have "x / 2 powr of_int (ulp_exponent y) \<le> y / 2 powr of_int (ulp_exponent y)"
    using xy by (simp add: divide_right_mono)
  then have "round_half_even (x / 2 powr of_int (ulp_exponent y))
      \<le> round_half_even (y / 2 powr of_int (ulp_exponent y))"
    by (rule round_half_even_mono)
  then show ?thesis using x y True by (simp add: round64_pos mult_right_mono)
next
  case False
  have y: "0 < y" using x xy by simp
  from False ulp_exponent_mono [OF x xy] have lt: "ulp_exponent x + 1 \<le> ulp_exponent y" by simp
  moreover have "- 1074 \<le> ulp_exponent x" by (simp add: ulp_exponent_def)
  ultimately have "- 1074 < ulp_exponent y" by linarith
  from round64_lower [OF y this] have "2 powr (of_int (ulp_exponent y) + 52) \<le> round64 y" .
  moreover have "(2::real) powr (of_int (ulp_exponent x) + 53) \<le> 2 powr (of_int (ulp_exponent y) + 52)"
    using lt by simp
  ultimately show ?thesis using round64_upper [OF x] by linarith
qed

lemma round64_repr:
  assumes y: "y = of_int m * 2 powr of_int k" and k: "ulp_exponent y \<le> k"
  shows "round64 y = y"
proof (cases "y = 0")
  case True
  then show ?thesis by (simp add: round64_def)
next
  case False
  let ?E = "ulp_exponent y"
  have "2 powr of_int k / 2 powr of_int ?E = (2::real) powr (of_int k - of_int ?E)"
    by (simp add: powr_diff)
  also have "of_int k - of_int ?E = real (nat (k - ?E))" using k by simp
  also have "(2::real) powr real (nat (k - ?E)) = 2 ^ nat (k - ?E)" by (simp add: powr_realpow)
  finally have p: "2 powr of_int k / 2 powr of_int ?E = (2::real) ^ nat (k - ?E)" .
  have "y / 2 powr of_int ?E = of_int m * (2 powr of_int k / 2 powr of_int ?E)"
    by (subst y) simp
  then have "y / 2 powr of_int ?E = of_int (m * 2 ^ nat (k - ?E))"
    by (simp only: p of_int_mult of_int_power of_int_numeral)
  then have "round_half_even (y / 2 powr of_int ?E) = m * 2 ^ nat (k - ?E)"
    by (simp only: round_half_even_int)
  then have "round64 y = of_int (m * 2 ^ nat (k - ?E)) * 2 powr of_int ?E"
    using False by (simp add: round64_def)
  also have "\<dots> = y / 2 powr of_int ?E * 2 powr of_int ?E"
    using \<open>y / 2 powr of_int ?E = of_int (m * 2 ^ nat (k - ?E))\<close> by simp
  also have "\<dots> = y" by simp
  finally show ?thesis .
qed

lemma round64_idem:
  assumes "0 \<le> x"
  shows "round64 (round64 x) = round64 x"
proof (cases "x = 0")
  case True
  then show ?thesis by (simp add: round64_def)
next
  case False
  then have x: "0 < x" using assms by simp
  let ?E = "ulp_exponent x"
  let ?n = "round_half_even (x / 2 powr of_int ?E)"
  let ?y = "round64 x"
  have y: "?y = of_int ?n * 2 powr of_int ?E" using x by (rule round64_pos)
  show ?thesis
  proof (cases "?y = 0")
    case True
    then show ?thesis by (simp add: round64_def)
  next
    case nz: False
    have ypos: "0 < ?y" using round64_nonneg [OF assms] nz by simp
    have Emin: "- 1074 \<le> ?E" by (simp add: ulp_exponent_def)
    show ?thesis
    proof (cases "?y < 2 powr (of_int ?E + 53)")
      case True
      have "\<lfloor>log 2 ?y\<rfloor> \<le> ?E + 52"
      proof (rule ccontr)
        assume "\<not> \<lfloor>log 2 ?y\<rfloor> \<le> ?E + 52"
        then have "?E + 53 \<le> \<lfloor>log 2 ?y\<rfloor>" by simp
        then have "(of_int ?E + 53 :: real) \<le> of_int \<lfloor>log 2 ?y\<rfloor>" by linarith
        then have "(2::real) powr (of_int ?E + 53) \<le> 2 powr of_int \<lfloor>log 2 ?y\<rfloor>" by simp
        with log_bounds(1) [OF ypos] True show False by linarith
      qed
      then have "ulp_exponent ?y \<le> ?E" using Emin ypos by (simp add: ulp_exponent_def)
      with y show ?thesis by (rule round64_repr)
    next
      case False
      with round64_upper [OF x] have eq: "?y = 2 powr (of_int ?E + 53)" by simp
      have "(of_int ?E + 53 :: real) = 52 + (of_int ?E + 1)" by simp
      then have "(2::real) powr (of_int ?E + 53) = 2 powr (52 + (of_int ?E + 1))" by (rule arg_cong)
      also have "\<dots> = 2 powr 52 * 2 powr (of_int ?E + 1)" by (rule powr_add)
      also have "\<dots> = of_int (2 ^ 52) * 2 powr of_int (?E + 1)" by simp
      finally have r: "?y = of_int (2 ^ 52) * 2 powr of_int (?E + 1)" using eq by simp
      have "\<lfloor>log 2 ?y\<rfloor> = ?E + 53"
        using floor_log_eq_powr_iff [of ?y 2 "?E + 53"] ypos eq by simp
      then have "ulp_exponent ?y \<le> ?E + 1" using Emin ypos by (simp add: ulp_exponent_def)
      with r show ?thesis by (rule round64_repr)
    qed
  qed
qed

lemma float_add_grows:
  assumes t: "0 \<le> t" "round64 t = t" and q: "0 \<le> q"
  shows "t \<le> float_add t q" "0 \<le> float_add t q" "round64 (float_add t q) = float_add t q"
proof -
  show "0 \<le> float_add t q" using t q by (simp add: float_add_def round64_nonneg)
  show "round64 (float_add t q) = float_add t q" using t q by (simp add: float_add_def round64_idem)
  show "t \<le> float_add t q"
  proof (cases "t = 0")
    case True
    then show ?thesis using q by (simp add: float_add_def round64_nonneg)
  next
    case False
    then have "0 < t" using t by simp
    from round64_mono [OF this, of "t + q"] q t(2) show ?thesis by (simp add: float_add_def)
  qed
qed

lemma round64_eval:
  assumes "0 < x" "2 powr of_int e \<le> x" "x < 2 powr (of_int e + 1)" "E = max (e - 52) (- 1074)"
  shows "round64 x = of_int (round_half_even (x / 2 powr of_int E)) * 2 powr of_int E"
proof -
  have "\<lfloor>log 2 x\<rfloor> = e" using floor_log_eq_powr_iff [of x 2 e] assms by simp
  then have "ulp_exponent x = E" using assms by (simp add: ulp_exponent_def)
  then show ?thesis using assms(1) by (simp add: round64_def)
qed

lemma float_add_halves: "float_add (1 / 2) (1 / 2) = 1"
  unfolding float_add_def
  by (subst round64_eval [where e = 0 and E = "- 52"])
    (simp_all add: round_half_even_def powr_neg_numeral)

lemma round64_half: "round64 (1 / 2) = 1 / 2"
  by (subst round64_eval [where e = "- 1" and E = "- 53"])
    (simp_all add: round_half_even_def powr_neg_numeral)

subsection \<open>The binary search and the running sums\<close>

lemma bisect_loop_bounds:
  "lo \<le> hi \<Longrightarrow> lo \<le> bisect_loop a x lo hi \<and> bisect_loop a x lo hi \<le> hi"
proof (induction a x lo hi rule: bisect_loop.induct)
  case (1 a x lo hi)
  show ?case
  proof (cases "lo < hi")
    case False
    then have "bisect_loop a x lo hi = lo" by (subst bisect_loop.simps) simp
    then show ?thesis using 1(3) by simp
  next
    case True
    let ?mid = "(lo + hi) div 2"
    have m: "lo \<le> ?mid" "?mid < hi" using True by auto
    show ?thesis
    proof (cases "x < a ! ?mid")
      case lt: True
      have "bisect_loop a x lo hi = bisect_loop a x lo ?mid"
        using True lt by (subst bisect_loop.simps) (simp add: Let_def)
      then show ?thesis using 1(1) [OF True refl lt m(1)] m by simp
    next
      case ge: False
      have "bisect_loop a x lo hi = bisect_loop a x (?mid + 1) hi"
        using True ge by (subst bisect_loop.simps) (simp add: Let_def)
      then show ?thesis using 1(2) [OF True refl ge] m by simp
    qed
  qed
qed

lemma bisect_loop_sorted:
  "sorted a \<Longrightarrow> lo \<le> hi \<Longrightarrow> hi \<le> length a \<Longrightarrow>
   (\<forall>i<lo. a ! i \<le> x) \<Longrightarrow> (\<forall>i. hi \<le> i \<and> i < length a \<longrightarrow> x < a ! i) \<Longrightarrow>
   (\<forall>i<bisect_loop a x lo hi. a ! i \<le> x) \<and>
   (\<forall>i. bisect_loop a x lo hi \<le> i \<and> i < length a \<longrightarrow> x < a ! i)"
proof (induction a x lo hi rule: bisect_loop.induct)
  case (1 a x lo hi)
  show ?case
  proof (cases "lo < hi")
    case False
    then have "lo = hi" using 1(4) by simp
    moreover have "bisect_loop a x lo hi = lo" using False by (subst bisect_loop.simps) simp
    ultimately show ?thesis using 1(6,7) by simp
  next
    case True
    let ?mid = "(lo + hi) div 2"
    have m: "lo \<le> ?mid" "?mid < hi" using True by auto
    show ?thesis
    proof (cases "x < a ! ?mid")
      case lt: True
      have up: "\<forall>i. ?mid \<le> i \<and> i < length a \<longrightarrow> x < a ! i"
      proof (intro allI impI)
        fix i assume "?mid \<le> i \<and> i < length a"
        then have "a ! ?mid \<le> a ! i" using 1(3) by (simp add: sorted_nth_mono)
        then show "x < a ! i" using lt by simp
      qed
      have ml: "?mid \<le> length a" using m 1(5) by simp
      have "bisect_loop a x lo hi = bisect_loop a x lo ?mid"
        using True lt by (subst bisect_loop.simps) (simp add: Let_def)
      then show ?thesis using 1(1) [OF True refl lt 1(3) m(1) ml 1(6) up] by simp
    next
      case ge: False
      have low: "\<forall>i<?mid + 1. a ! i \<le> x"
      proof (intro allI impI)
        fix i assume "i < ?mid + 1"
        then have "a ! i \<le> a ! ?mid" using 1(3) m 1(5) by (simp add: sorted_nth_mono)
        then show "a ! i \<le> x" using ge by simp
      qed
      have mh: "?mid + 1 \<le> hi" using m by simp
      have "bisect_loop a x lo hi = bisect_loop a x (?mid + 1) hi"
        using True ge by (subst bisect_loop.simps) (simp add: Let_def)
      then show ?thesis using 1(2) [OF True refl ge 1(3) mh 1(5) low 1(7)] by simp
    qed
  qed
qed

lemma bisect_sorted:
  assumes "sorted a"
  shows "bisect a x \<le> length a" "\<forall>i<bisect a x. a ! i \<le> x"
    "\<forall>i. bisect a x \<le> i \<and> i < length a \<longrightarrow> x < a ! i"
proof -
  have lo: "\<forall>i<(0::nat). a ! i \<le> x" by simp
  have hi: "\<forall>i. length a \<le> i \<and> i < length a \<longrightarrow> x < a ! i" by auto
  show "bisect a x \<le> length a"
    using bisect_loop_bounds [of 0 "length a" a x] by (simp add: bisect_def)
  from bisect_loop_sorted [OF assms le0 le_refl lo hi]
  show "\<forall>i<bisect a x. a ! i \<le> x"
    "\<forall>i. bisect a x \<le> i \<and> i < length a \<longrightarrow> x < a ! i"
    unfolding bisect_def by blast+
qed

lemma accumulate_from_length: "length (accumulate_from t xs) = length xs"
  by (induction xs arbitrary: t) simp_all

lemma accumulate_length: "length (accumulate xs) = length xs"
  by (cases xs) (simp_all add: accumulate_from_length)

lemma accumulate_from_sorted:
  "0 \<le> t \<Longrightarrow> round64 t = t \<Longrightarrow> \<forall>q\<in>set xs. 0 \<le> q \<Longrightarrow>
   sorted (accumulate_from t xs) \<and> (\<forall>c\<in>set (accumulate_from t xs). t \<le> c)"
proof (induction xs arbitrary: t)
  case Nil
  then show ?case by simp
next
  case (Cons y ys)
  from Cons.prems have y: "0 \<le> y" and ys: "\<forall>q\<in>set ys. 0 \<le> q" by simp_all
  note g = float_add_grows [OF Cons.prems(1) Cons.prems(2) y]
  from Cons.IH [OF g(2) g(3) ys] g(1) show ?case by fastforce
qed

lemma accumulate_sorted:
  assumes "\<forall>q\<in>set xs. 0 \<le> q" and "\<forall>q\<in>set xs. round64 q = q"
  shows "sorted (accumulate xs)"
proof (cases xs)
  case Nil
  then show ?thesis by simp
next
  case (Cons y ys)
  from assms Cons have y: "0 \<le> y" "round64 y = y" and ys: "\<forall>q\<in>set ys. 0 \<le> q" by simp_all
  from accumulate_from_sorted [OF y ys] show ?thesis using Cons by simp
qed

lemma bisect_below_last:
  assumes s: "sorted a" and ne: "a \<noteq> []" and x: "x < last a"
  shows "bisect a x < length a"
proof (rule ccontr)
  assume "\<not> bisect a x < length a"
  with bisect_sorted(1) [OF s, of x] have eq: "bisect a x = length a" by simp
  have "length a - 1 < bisect a x" using eq ne by simp
  then have "a ! (length a - 1) \<le> x" using bisect_sorted(2) [OF s, of x] by blast
  then show False using x ne by (simp add: last_conv_nth)
qed

lemma choice_in_range_when_last_sum_above_draw:
  assumes nn: "\<forall>q\<in>set cp. 0 \<le> q" and fl: "\<forall>q\<in>set cp. round64 q = q"
    and ne: "cp \<noteq> []" and x: "x < last (accumulate cp)"
  shows "bisect (accumulate cp) x < length cp"
proof -
  have "accumulate cp \<noteq> []" using ne accumulate_length [of cp] by auto
  from bisect_below_last [OF accumulate_sorted [OF nn fl] this x]
  show ?thesis by (simp add: accumulate_length)
qed

subsection \<open>What one turn changes\<close>

lemma turn_choice_payoffs:
  "turn_choice rand b w = (b1, cp, c, w1) \<Longrightarrow> b1 = b\<lparr>self_payoffs := self_payoffs b1\<rparr>"
  by (auto simp: turn_choice_def Let_def split: prod.splits)

lemma turn_outcome_Inr:
  assumes "turn_outcome rand c b w = Inr (b', w')"
  shows "c < length (self_tries b) \<and>
    b' = b\<lparr>self_tries := (self_tries b)[c := self_tries b ! c + 1],
           self_wins := self_wins b', self_assetstock := self_assetstock b'\<rparr> \<and>
    ((c < length (self_wins b) \<and> self_wins b' = (self_wins b)[c := self_wins b ! c + 1]
        \<and> self_assetstock b' = self_assetstock b + 1)
     \<or> (self_wins b' = self_wins b \<and> self_assetstock b' = self_assetstock b - 1))"
  using assms
  by (auto simp: turn_outcome_def Let_def split: prod.splits if_splits)

lemma turn_beliefs_eq:
  "turn_beliefs b w = (b', w') \<Longrightarrow> b' = b\<lparr>self_beliefs := self_beliefs b'\<rparr>"
  by (auto simp: turn_beliefs_def Let_def split: prod.splits)

lemma turn_metrics_Inr:
  assumes "turn_metrics cp b w = Inr (b', w')"
  shows "\<exists>k opn pe. b' = b\<lparr>self_score := self_score b @ [self_assetstock b],
                          self_knowledge := self_knowledge b @ [k],
                          self_opinion := self_opinion b @ [opn],
                          self_probexplore := self_probexplore b @ [pe]\<rparr>"
  using assms
  by (auto simp: turn_metrics_def Let_def split: if_splits)

lemma turn_Inr:
  assumes "turn rand b w = Inr (b', w')"
  shows "\<exists>c p ws a bel k opn pe.
    c < length (self_tries b) \<and>
    b' = b\<lparr>self_payoffs := p,
           self_tries := (self_tries b)[c := self_tries b ! c + 1],
           self_wins := ws, self_assetstock := a, self_beliefs := bel,
           self_score := self_score b @ [a],
           self_knowledge := self_knowledge b @ [k],
           self_opinion := self_opinion b @ [opn],
           self_probexplore := self_probexplore b @ [pe]\<rparr> \<and>
    ((c < length (self_wins b) \<and> ws = (self_wins b)[c := self_wins b ! c + 1] \<and> a = self_assetstock b + 1)
      \<or> (ws = self_wins b \<and> a = self_assetstock b - 1))"
proof -
  obtain b1 cp c w1 where tc: "turn_choice rand b w = (b1, cp, c, w1)"
    by (metis prod_cases4)
  from assms tc obtain b2 w2 where to: "turn_outcome rand c b1 w1 = Inr (b2, w2)"
    by (auto simp: turn_def split: sum.splits)
  obtain b3 w3 where tb: "turn_beliefs b2 w2 = (b3, w3)"
    by (metis surj_pair)
  from assms tc to tb have tm: "turn_metrics cp b3 w3 = Inr (b', w')"
    by (simp add: turn_def)
  from turn_choice_payoffs [OF tc] obtain p where b1: "b1 = b\<lparr>self_payoffs := p\<rparr>" by blast
  define ws where "ws = self_wins b2"
  define a where "a = self_assetstock b2"
  from turn_outcome_Inr [OF to] have
    c: "c < length (self_tries b1)" and
    b2: "b2 = b1\<lparr>self_tries := (self_tries b1)[c := self_tries b1 ! c + 1],
                  self_wins := ws, self_assetstock := a\<rparr>" and
    wa: "(c < length (self_wins b1) \<and> ws = (self_wins b1)[c := self_wins b1 ! c + 1] \<and> a = self_assetstock b1 + 1)
        \<or> (ws = self_wins b1 \<and> a = self_assetstock b1 - 1)"
    unfolding ws_def a_def by blast+
  from turn_beliefs_eq [OF tb] obtain bel where b3: "b3 = b2\<lparr>self_beliefs := bel\<rparr>" by blast
  from turn_metrics_Inr [OF tm] obtain k opn pe where
    b': "b' = b3\<lparr>self_score := self_score b3 @ [self_assetstock b3],
                          self_knowledge := self_knowledge b3 @ [k],
                          self_opinion := self_opinion b3 @ [opn],
                          self_probexplore := self_probexplore b3 @ [pe]\<rparr>"
    by blast
  have "c < length (self_tries b)" using c b1 by simp
  moreover have "b' = b\<lparr>self_payoffs := p,
           self_tries := (self_tries b)[c := self_tries b ! c + 1],
           self_wins := ws, self_assetstock := a, self_beliefs := bel,
           self_score := self_score b @ [a],
           self_knowledge := self_knowledge b @ [k],
           self_opinion := self_opinion b @ [opn],
           self_probexplore := self_probexplore b @ [pe]\<rparr>"
    unfolding b' b3 b2 b1 by simp
  moreover have "(c < length (self_wins b) \<and> ws = (self_wins b)[c := self_wins b ! c + 1] \<and> a = self_assetstock b + 1)
      \<or> (ws = self_wins b \<and> a = self_assetstock b - 1)"
    using wa b1 by simp
  ultimately show ?thesis by blast
qed


lemma turn_choice_eq:
  assumes "self_turbulence_fxn b (self_payoffs b) (self_payoff_fxn b) (self_turbulence b) w = (p, w1)"
    and "self_strategy_fxn b (self_beliefs b) (self_strategy b) w1 = (cp, w2)"
    and "rand w2 = (x, w3)"
  shows "turn_choice rand b w = (b\<lparr>self_payoffs := p\<rparr>, cp, bisect (accumulate cp) x, w3)"
  using assms by (simp add: turn_choice_def)

lemma turn_outcome_Inl:
  assumes "turn_outcome rand c b w = Inl (e, b', w')"
  shows "(e = IndexError 104 \<and> length (self_tries b) \<le> c) \<or>
         (e = IndexError 105 \<and> length (self_payoffs b) \<le> c) \<or>
         (e = IndexError 106 \<and> length (self_wins b) \<le> c)"
  using assms
  by (auto simp: turn_outcome_def Let_def split: prod.splits if_splits)

lemma turn_metrics_Inl:
  assumes "turn_metrics cp b w = Inl (e, b', w')"
  shows "e = IndexError 117 \<or> e = ValueError 119"
  using assms
  by (auto simp: turn_metrics_def Let_def split: if_splits)

lemma turn_Inl:
  assumes t: "turn rand b w = Inl (e, b', w')"
    and tc: "turn_choice rand b w = (b1, cp, c, w1)"
  shows "(\<exists>b2 w2. turn_outcome rand c b1 w1 = Inl (e, b2, w2)) \<or> e = IndexError 117 \<or> e = ValueError 119"
proof (cases "turn_outcome rand c b1 w1")
  case (Inl a)
  with t tc show ?thesis by (simp add: turn_def)
next
  case (Inr a)
  obtain b2 w2 where a: "a = (b2, w2)" by (cases a)
  obtain b3 w3 where tb: "turn_beliefs b2 w2 = (b3, w3)" by (cases "turn_beliefs b2 w2")
  from t tc Inr a tb have "turn_metrics cp b3 w3 = Inl (e, b', w')" by (simp add: turn_def)
  from turn_metrics_Inl [OF this] show ?thesis by simp
qed

subsection \<open>Construction and the loop\<close>

lemma draw_payoffs_length:
  "draw_payoffs n f w = (ps, w1) \<Longrightarrow> length ps = n"
proof (induction n arbitrary: w ps w1)
  case 0
  then show ?case by simp
next
  case (Suc n)
  then show ?case by (auto simp: Let_def split: prod.splits)
qed

lemma init_Inr:
  "\<exists>ps w1. draw_payoffs (nat arms) pf w = (ps, w1) \<and>
     init arms turns pf tf sf tu bf st w =
       Inr (\<lparr> self_arms = arms, self_turns = turns, self_assetstock = 0,
              self_complete = False, self_payoff_fxn = pf, self_payoffs = ps,
              self_turbulence_fxn = tf, self_turbulence = tu,
              self_strategy_fxn = sf, self_strategy = st, self_belief_fxn = bf,
              self_tries = replicate (nat arms) 0, self_wins = replicate (nat arms) 0,
              self_beliefs = replicate (nat arms) (1 / 2),
              self_score = [], self_knowledge = [], self_opinion = [],
              self_probexplore = [] \<rparr>, w1)"
  by (cases "draw_payoffs (nat arms) pf w") (simp add: init_def)

lemma init_after_turns:
  assumes "init arms turns pf tf sf tu bf st w = Inr (b0, w1)"
  shows "after_turns 0 b0"
  using assms init_Inr [of arms pf w turns tf sf tu bf st]
  by (auto simp: after_turns_def sum_list_replicate)

lemma init_fields:
  assumes "init arms turns pf tf sf tu bf st w = Inr (b0, w1)"
  shows "self_arms b0 = arms" "self_turns b0 = turns" "\<not> self_complete b0"
    "length (self_payoffs b0) = nat arms" "length (self_beliefs b0) = nat arms"
  using assms init_Inr [of arms pf w turns tf sf tu bf st]
  by (auto dest: draw_payoffs_length)

lemma init_result:
  "\<exists>b w1. init arms turns pf tf sf tu bf st w = Inr (b, w1) \<and>
     self_arms b = arms \<and> self_turns b = turns \<and> self_assetstock b = 0 \<and>
     self_complete b = False \<and>
     length (self_payoffs b) = nat arms \<and> length (self_tries b) = nat arms \<and>
     length (self_wins b) = nat arms \<and> length (self_beliefs b) = nat arms \<and>
     self_score b = [] \<and> self_knowledge b = [] \<and> self_opinion b = [] \<and>
     self_probexplore b = []"
proof -
  from init_Inr [of arms pf w turns tf sf tu bf st] obtain ps w1 where
    d: "draw_payoffs (nat arms) pf w = (ps, w1)" and
    e: "init arms turns pf tf sf tu bf st w =
       Inr (\<lparr> self_arms = arms, self_turns = turns, self_assetstock = 0,
              self_complete = False, self_payoff_fxn = pf, self_payoffs = ps,
              self_turbulence_fxn = tf, self_turbulence = tu,
              self_strategy_fxn = sf, self_strategy = st, self_belief_fxn = bf,
              self_tries = replicate (nat arms) 0, self_wins = replicate (nat arms) 0,
              self_beliefs = replicate (nat arms) (1 / 2),
              self_score = [], self_knowledge = [], self_opinion = [],
              self_probexplore = [] \<rparr>, w1)"
    by blast
  from draw_payoffs_length [OF d] e show ?thesis by simp
qed

lemma turn_after_turns:
  assumes inv: "after_turns n b" and t: "turn rand b w = Inr (b', w')"
  shows "after_turns (Suc n) b'"
proof -
  from turn_Inr [OF t] obtain c p ws a bel k opn pe where
    c: "c < length (self_tries b)" and
    b': "b' = b\<lparr>self_payoffs := p,
           self_tries := (self_tries b)[c := self_tries b ! c + 1],
           self_wins := ws, self_assetstock := a, self_beliefs := bel,
           self_score := self_score b @ [a],
           self_knowledge := self_knowledge b @ [k],
           self_opinion := self_opinion b @ [opn],
           self_probexplore := self_probexplore b @ [pe]\<rparr>" and
    wa: "(c < length (self_wins b) \<and> ws = (self_wins b)[c := self_wins b ! c + 1] \<and> a = self_assetstock b + 1)
      \<or> (ws = self_wins b \<and> a = self_assetstock b - 1)"
    by blast
  have len: "length (self_tries b) = nat (self_arms b)" "length (self_wins b) = nat (self_arms b)"
    and st: "sum_list (self_tries b) = int n"
    and hist: "length (self_score b) = n" "length (self_knowledge b) = n"
      "length (self_opinion b) = n" "length (self_probexplore b) = n"
    and asset: "self_assetstock b = 2 * sum_list (self_wins b) - sum_list (self_tries b)"
    and le: "\<forall>i < length (self_tries b). 0 \<le> self_wins b ! i \<and> self_wins b ! i \<le> self_tries b ! i"
    using inv by (simp_all add: after_turns_def)
  have lws: "length ws = length (self_wins b)" using wa by auto
  have st': "sum_list ((self_tries b)[c := self_tries b ! c + 1]) = int n + 1"
    using sum_list_bump [OF c] st by simp
  have asset': "a = 2 * sum_list ws - (int n + 1)"
  proof -
    from wa show ?thesis
    proof
      assume w: "c < length (self_wins b) \<and> ws = (self_wins b)[c := self_wins b ! c + 1] \<and> a = self_assetstock b + 1"
      then have "sum_list ws = sum_list (self_wins b) + 1" using sum_list_bump [of c "self_wins b"] by simp
      then show ?thesis using w asset st by simp
    next
      assume "ws = self_wins b \<and> a = self_assetstock b - 1"
      then show ?thesis using asset st by simp
    qed
  qed
  have le': "\<forall>i < length (self_tries b). 0 \<le> ws ! i
      \<and> ws ! i \<le> (self_tries b)[c := self_tries b ! c + 1] ! i"
  proof (intro allI impI)
    fix i assume i: "i < length (self_tries b)"
    then have iw: "i < length (self_wins b)" using len by simp
    from le i have base: "0 \<le> self_wins b ! i" "self_wins b ! i \<le> self_tries b ! i" by auto
    from wa show "0 \<le> ws ! i \<and> ws ! i \<le> (self_tries b)[c := self_tries b ! c + 1] ! i"
    proof
      assume "c < length (self_wins b) \<and> ws = (self_wins b)[c := self_wins b ! c + 1] \<and> a = self_assetstock b + 1"
      then show ?thesis using base i iw by (cases "i = c") simp_all
    next
      assume "ws = self_wins b \<and> a = self_assetstock b - 1"
      then show ?thesis using base i by (cases "i = c") simp_all
    qed
  qed
  show ?thesis
    unfolding after_turns_def b'
    using len lws st' asset' le' hist by simp
qed

lemma run_turns_after_turns:
  "after_turns k b \<Longrightarrow> run_turns rand n b w = Inr (b', w') \<Longrightarrow> after_turns (k + n) b'"
proof (induction n arbitrary: k b w)
  case 0
  then show ?case by simp
next
  case (Suc n)
  from Suc.prems(2) obtain b1 w1 where
    t: "turn rand b w = Inr (b1, w1)" and r: "run_turns rand n b1 w1 = Inr (b', w')"
    by (auto split: sum.splits)
  from Suc.IH [OF turn_after_turns [OF Suc.prems(1) t] r]
  show ?case by simp
qed

lemma run_turns_add:
  "run_turns rand (m + n) b w =
     (case run_turns rand m b w of Inl e \<Rightarrow> Inl e | Inr (b1, w1) \<Rightarrow> run_turns rand n b1 w1)"
proof (induction m arbitrary: b w)
  case 0
  then show ?case by simp
next
  case (Suc m)
  then show ?case by (simp split: sum.splits)
qed

lemma turn_score_append:
  "turn rand b w = Inr (b', w') \<Longrightarrow> self_score b' = self_score b @ [self_assetstock b']"
  by (drule turn_Inr) auto

lemma run_turns_score_prefix:
  "run_turns rand n b w = Inr (b', w') \<Longrightarrow> \<exists>ys. self_score b' = self_score b @ ys"
proof (induction n arbitrary: b w)
  case 0
  then show ?case by simp
next
  case (Suc n)
  from Suc.prems obtain b1 w1 where
    t: "turn rand b w = Inr (b1, w1)" and r: "run_turns rand n b1 w1 = Inr (b', w')"
    by (auto split: sum.splits)
  from Suc.IH [OF r] turn_score_append [OF t] show ?case by auto
qed

lemma simulate_Inr:
  assumes "simulate rand b w = Inr (b', w')"
  shows "\<exists>b1. run_turns rand (nat (self_turns b)) b w = Inr (b1, w') \<and> b' = b1\<lparr>self_complete := True\<rparr>"
  using assms by (auto simp: simulate_def split: sum.splits)

lemma after_turns_complete:
  "after_turns n (b\<lparr>self_complete := True\<rparr>) = after_turns n b"
  by (simp add: after_turns_def)


lemma turn_config:
  "turn rand b w = Inr (b', w') \<Longrightarrow> self_arms b' = self_arms b \<and> self_turns b' = self_turns b
     \<and> self_complete b' = self_complete b"
  by (drule turn_Inr) auto

lemma run_turns_config:
  "run_turns rand n b w = Inr (b', w') \<Longrightarrow> self_arms b' = self_arms b \<and> self_turns b' = self_turns b
     \<and> self_complete b' = self_complete b"
proof (induction n arbitrary: b w)
  case 0
  then show ?case by simp
next
  case (Suc n)
  from Suc.prems obtain b1 w1 where
    t: "turn rand b w = Inr (b1, w1)" and r: "run_turns rand n b1 w1 = Inr (b', w')"
    by (auto split: sum.splits)
  from Suc.IH [OF r] turn_config [OF t] show ?case by simp
qed

lemma run_turns_split:
  assumes "run_turns rand (m + k) b w = Inr (b', w')"
  shows "\<exists>b1 w1. run_turns rand m b w = Inr (b1, w1) \<and> run_turns rand k b1 w1 = Inr (b', w')"
  using assms by (auto simp: run_turns_add split: sum.splits)

subsection \<open>The accessors\<close>

lemma accessors_before_completion:
  assumes "\<not> self_complete b"
  shows "score b = (Inr None, b)" "knowledge b = (Inr None, b)"
    "opinion b = (Inr None, b)" "probexplore b = (Inr None, b)"
  using assms by (simp_all add: score_def knowledge_def opinion_def probexplore_def)

lemma accessors_after_completion:
  assumes "self_complete b"
  shows "self_score b \<noteq> [] \<Longrightarrow> score b = (Inr (Some (last (self_score b))), b)"
    "self_knowledge b \<noteq> [] \<Longrightarrow> knowledge b = (Inr (Some (last (self_knowledge b))), b)"
    "self_opinion b \<noteq> [] \<Longrightarrow> opinion b = (Inr (Some (last (self_opinion b))), b)"
    "self_probexplore b \<noteq> [] \<Longrightarrow> probexplore b = (Inr (Some (last (self_probexplore b))), b)"
  using assms by (simp_all add: score_def knowledge_def opinion_def probexplore_def last_item_def)

lemma accessors_leave_object:
  "snd (score b) = b" "snd (knowledge b) = b" "snd (opinion b) = b" "snd (probexplore b) = b"
  by (simp_all add: score_def knowledge_def opinion_def probexplore_def)

subsection \<open>The scenario, evaluated\<close>

lemma scenario_init:
  "init 2 turns next_draw no_turbulence uniform_strategy 0 simplebelief (1 / 2) scenario_world
     = Inr (scenario_bandit turns, [1 / 2, 1 / 20])"
  by (simp add: init_def scenario_world_def scenario_bandit_def next_draw_def numeral_2_eq_2)

lemma scenario_bisect: "bisect (accumulate [1 / 2, 1 / 2]) (1 / 2 :: real) = 1"
  by (simp add: float_add_halves bisect_def bisect_loop.simps)

lemma scenario_choice:
  "turn_choice next_draw (scenario_bandit turns) [1 / 2, 1 / 20]
     = (scenario_bandit turns, [1 / 2, 1 / 2], 1, [1 / 20])"
  by (simp add: turn_choice_def scenario_bandit_def no_turbulence_def uniform_strategy_def
      next_draw_def float_add_halves bisect_def bisect_loop.simps numeral_2_eq_2)

lemma scenario_outcome:
  "turn_outcome next_draw (Suc 0) (scenario_bandit turns) [1 / 20]
     = Inr ((scenario_bandit turns)\<lparr>self_tries := [0, 1], self_wins := [0, 1], self_assetstock := 1\<rparr>, [])"
  by (simp add: turn_outcome_def scenario_bandit_def next_draw_def)

lemma scenario_turn:
  "turn next_draw (scenario_bandit turns) [1 / 2, 1 / 20] = Inr (scenario_after turns, [])"
proof -
  let ?b2 = "(scenario_bandit turns)\<lparr>self_tries := [0, 1], self_wins := [0, 1], self_assetstock := 1\<rparr>"
  have "turn next_draw (scenario_bandit turns) [1 / 2, 1 / 20]
      = (let (b3, w3) = turn_beliefs ?b2 [] in turn_metrics [1 / 2, 1 / 2] b3 w3)"
    by (simp add: turn_def scenario_choice scenario_outcome)
  also have "\<dots> = Inr (scenario_after turns, [])"
    by (simp add: turn_beliefs_def turn_metrics_def scenario_after_def scenario_bandit_def
        simplebelief_def max_list_def numeral_2_eq_2 power2_eq_square)
  finally show ?thesis .
qed

lemma scenario_run:
  "run_turns next_draw (Suc 0) (scenario_bandit turns) [1 / 2, 1 / 20] = Inr (scenario_after turns, [])"
  by (simp add: scenario_turn)

lemma scenario_simulate:
  "simulate next_draw (scenario_bandit 1) [1 / 2, 1 / 20]
     = Inr ((scenario_after 1)\<lparr>self_complete := True\<rparr>, [])"
proof -
  have "nat (self_turns (scenario_bandit 1)) = Suc 0" by (simp add: scenario_bandit_def)
  then show ?thesis by (simp add: simulate_def scenario_turn)
qed

lemma scenario_fields:
  "self_turbulence_fxn (scenario_bandit t) = no_turbulence"
  "self_strategy_fxn (scenario_bandit t) = uniform_strategy"
  "self_payoffs (scenario_bandit t) = [9 / 10, 1 / 10]"
  "self_beliefs (scenario_bandit t) = [1 / 2, 1 / 2]"
  "self_arms (scenario_bandit t) = 2"
  by (simp_all add: scenario_bandit_def)

lemma scenario_turbulence:
  "self_turbulence_fxn (scenario_bandit t) (self_payoffs (scenario_bandit t))
     (self_payoff_fxn (scenario_bandit t)) (self_turbulence (scenario_bandit t)) [1 / 2, 1 / 20]
   = ([9 / 10, 1 / 10], [1 / 2, 1 / 20])"
  by (simp add: scenario_fields no_turbulence_def)

lemma scenario_strategy:
  "self_strategy_fxn (scenario_bandit t) (self_beliefs (scenario_bandit t))
     (self_strategy (scenario_bandit t)) [1 / 2, 1 / 20]
   = ([1 / 2, 1 / 2], [1 / 2, 1 / 20])"
  by (simp add: scenario_fields uniform_strategy_def numeral_2_eq_2)

lemma scenario_draws:
  "next_draw [1 / 2, 1 / 20] = (1 / 2, [1 / 20])" "next_draw [1 / 20] = (1 / 20, [])"
  by (simp_all add: next_draw_def)

lemma scenario_counters:
  "self_tries (scenario_bandit t) = [0, 0]" "self_wins (scenario_bandit t) = [0, 0]"
  "self_assetstock (scenario_bandit t) = 0" "self_score (scenario_bandit t) = []"
  "self_belief_fxn (scenario_bandit t) = simplebelief"
  by (simp_all add: scenario_bandit_def)

lemma scenario_loss_draws:
  "next_draw [1 / 2, 1 / 5] = (1 / 2, [1 / 5])" "next_draw [1 / 5] = (1 / 5, [])"
  by (simp_all add: next_draw_def)

lemma scenario_loss_policies:
  "self_turbulence_fxn (scenario_bandit t) (self_payoffs (scenario_bandit t))
     (self_payoff_fxn (scenario_bandit t)) (self_turbulence (scenario_bandit t)) [1 / 2, 1 / 5]
   = ([9 / 10, 1 / 10], [1 / 2, 1 / 5])"
  "self_strategy_fxn (scenario_bandit t) (self_beliefs (scenario_bandit t))
     (self_strategy (scenario_bandit t)) [1 / 2, 1 / 5]
   = ([1 / 2, 1 / 2], [1 / 2, 1 / 5])"
  by (simp_all add: scenario_fields no_turbulence_def uniform_strategy_def numeral_2_eq_2)

subsection \<open>The scenario with four arms, evaluated\<close>

lemma rounding_floats:
  "round64 (3602879701896397 / 2 ^ 55) = 3602879701896397 / 2 ^ 55"
  "round64 (5404319552844595 / 2 ^ 54) = 5404319552844595 / 2 ^ 54"
proof -
  show "round64 (3602879701896397 / 2 ^ 55) = 3602879701896397 / 2 ^ 55"
    by (subst round64_eval [where e = "- 4" and E = "- 56"])
      (simp_all add: round_half_even_def powr_neg_numeral)
  show "round64 (5404319552844595 / 2 ^ 54) = 5404319552844595 / 2 ^ 54"
    by (subst round64_eval [where e = "- 2" and E = "- 54"])
      (simp_all add: round_half_even_def powr_neg_numeral)
qed

lemma rounding_sums:
  "float_add (3602879701896397 / 2 ^ 55) (1 / 2) = 5404319552844595 / 2 ^ 53"
  "float_add (5404319552844595 / 2 ^ 53) (5404319552844595 / 2 ^ 54) = 8106479329266892 / 2 ^ 53"
  "float_add (8106479329266892 / 2 ^ 53) (3602879701896397 / 2 ^ 55) = 9007199254740991 / 2 ^ 53"
proof -
  show "float_add (3602879701896397 / 2 ^ 55) (1 / 2) = 5404319552844595 / 2 ^ 53"
    unfolding float_add_def
    by (subst round64_eval [where e = "- 1" and E = "- 53"])
      (simp_all add: round_half_even_def powr_neg_numeral)
  show "float_add (5404319552844595 / 2 ^ 53) (5404319552844595 / 2 ^ 54) = 8106479329266892 / 2 ^ 53"
    unfolding float_add_def
    by (subst round64_eval [where e = "- 1" and E = "- 53"])
      (simp_all add: round_half_even_def powr_neg_numeral)
  show "float_add (8106479329266892 / 2 ^ 53) (3602879701896397 / 2 ^ 55) = 9007199254740991 / 2 ^ 53"
    unfolding float_add_def
    by (subst round64_eval [where e = "- 1" and E = "- 53"])
      (simp_all add: round_half_even_def powr_neg_numeral)
qed

lemma rounding_accumulate:
  "accumulate rounding_probabilities =
     [3602879701896397 / 2 ^ 55, 5404319552844595 / 2 ^ 53, 8106479329266892 / 2 ^ 53,
      9007199254740991 / 2 ^ 53]"
  unfolding rounding_probabilities_def accumulate.simps accumulate_from.simps rounding_sums ..

lemma rounding_bisect: "bisect (accumulate rounding_probabilities) largest_draw = 4"
  unfolding rounding_accumulate largest_draw_def
  by (simp add: bisect_def bisect_loop.simps)

lemma rounding_init:
  "init 4 1 next_draw no_turbulence fixed_strategy 0 simplebelief (1 / 2)
     [1 / 2, 1 / 2, 1 / 2, 1 / 2, largest_draw] = Inr (rounding_bandit, [largest_draw])"
  by (simp add: init_def rounding_bandit_def next_draw_def eval_nat_numeral)

lemma rounding_choice:
  "turn_choice next_draw rounding_bandit [largest_draw]
     = (rounding_bandit, rounding_probabilities, 4, [])"
proof -
  have "self_turbulence_fxn rounding_bandit (self_payoffs rounding_bandit)
      (self_payoff_fxn rounding_bandit) (self_turbulence rounding_bandit) [largest_draw]
      = (self_payoffs rounding_bandit, [largest_draw])"
    by (simp add: rounding_bandit_def no_turbulence_def)
  moreover have "self_strategy_fxn rounding_bandit (self_beliefs rounding_bandit)
      (self_strategy rounding_bandit) [largest_draw] = (rounding_probabilities, [largest_draw])"
    by (simp add: rounding_bandit_def fixed_strategy_def)
  moreover have "next_draw [largest_draw] = (largest_draw, [])" by (simp add: next_draw_def)
  ultimately have "turn_choice next_draw rounding_bandit [largest_draw]
      = (rounding_bandit\<lparr>self_payoffs := self_payoffs rounding_bandit\<rparr>, rounding_probabilities,
         bisect (accumulate rounding_probabilities) largest_draw, [])"
    by (rule turn_choice_eq [where rand = next_draw])
  then show ?thesis by (simp add: rounding_bisect)
qed

lemma rounding_turn:
  "turn next_draw rounding_bandit [largest_draw] = Inl (IndexError 104, rounding_bandit, [])"
proof -
  have "turn_outcome next_draw 4 rounding_bandit [] = Inl (IndexError 104, rounding_bandit, [])"
    by (simp add: turn_outcome_def rounding_bandit_def)
  then show ?thesis by (simp add: turn_def rounding_choice)
qed

section \<open>The claims\<close>

text \<open>
  In the theorems below a run starts from the object that \<open>init\<close> returns, and
  \<open>run_turns rand n\<close> returning \<open>Inr (b, w)\<close> says that the first \<open>n\<close> turns
  of the loop have completed, leaving the object \<open>b\<close>. By \<open>run_turns_add\<close>
  these are the objects that \<open>simulate\<close> passes through. The hypotheses on
  \<open>self_turbulence_fxn\<close>, \<open>self_strategy_fxn\<close> and \<open>rand\<close> name what the policy
  functions and the two draws of a turn return.
\<close>

subsection \<open>The choice of an arm\<close>

text \<open>
  Claim C1, as stated, fails. With the choice probabilities \<open>[0.5, 0.5]\<close> the
  cumulative sums are \<open>[0.5, 1.0]\<close>; the sum of arm 0 meets the draw \<open>0.5\<close>,
  yet \<open>bisect.bisect\<close> returns 1: arm 1 is chosen, not arm 0.
\<close>

theorem choice_skips_arm_meeting_the_draw:
  "(1 / 2 :: real) \<le> accumulate [1 / 2, 1 / 2] ! 0 \<and>
   bisect (accumulate [1 / 2, 1 / 2]) (1 / 2 :: real) \<noteq> 0 \<and>
   turn_choice next_draw (scenario_bandit 1) [1 / 2, 1 / 20]
     = (scenario_bandit 1, [1 / 2, 1 / 2], 1, [1 / 20])"
  using scenario_bisect scenario_choice [of 1] by simp

text \<open>
  Claim C1, amended. For non-negative choice probabilities (floats, as every
  value of the list is) the arm chosen is the first one whose cumulative sum,
  as line 99 computes it, is strictly above the draw: every arm
  before it has a cumulative sum less than or equal to the draw, and its own
  is greater (when no cumulative sum is above the draw, the index is the number
  of arms). So an arm whose cumulative sum equals the draw is passed over, and
  with the probabilities \<open>[0.5, 0.5]\<close> and the draw \<open>0.5\<close> arm 1 is chosen.
\<close>

theorem choice_is_first_arm_above_draw:
  assumes tf: "self_turbulence_fxn b (self_payoffs b) (self_payoff_fxn b) (self_turbulence b) w = (p, w1)"
    and sf: "self_strategy_fxn b (self_beliefs b) (self_strategy b) w1 = (cp, w2)"
    and rx: "rand w2 = (x, w3)"
    and nn: "\<forall>q\<in>set cp. 0 \<le> q"
    and fl: "\<forall>q\<in>set cp. round64 q = q"
  shows "turn_choice rand b w = (b\<lparr>self_payoffs := p\<rparr>, cp, bisect (accumulate cp) x, w3) \<and>
         bisect (accumulate cp) x \<le> length cp \<and>
         (\<forall>i < bisect (accumulate cp) x. accumulate cp ! i \<le> x) \<and>
         (bisect (accumulate cp) x < length cp \<longrightarrow> x < accumulate cp ! bisect (accumulate cp) x) \<and>
         bisect (accumulate [1 / 2, 1 / 2]) (1 / 2 :: real) = 1"
proof -
  have s: "sorted (accumulate cp)" by (rule accumulate_sorted [OF nn fl])
  have "turn_choice rand b w = (b\<lparr>self_payoffs := p\<rparr>, cp, bisect (accumulate cp) x, w3)"
    using tf sf rx by (rule turn_choice_eq [where rand = rand])
  moreover have "bisect (accumulate cp) x \<le> length cp"
    using bisect_sorted(1) [OF s, of x] by (simp add: accumulate_length)
  moreover have "\<forall>i < bisect (accumulate cp) x. accumulate cp ! i \<le> x"
    by (rule bisect_sorted(2) [OF s])
  moreover have "bisect (accumulate cp) x < length cp \<longrightarrow> x < accumulate cp ! bisect (accumulate cp) x"
    using bisect_sorted(3) [OF s, of x] by (simp add: accumulate_length)
  ultimately show ?thesis using scenario_bisect by blast
qed

theorem choice_is_first_arm_above_draw_witness:
  "self_turbulence_fxn (scenario_bandit 1) (self_payoffs (scenario_bandit 1))
     (self_payoff_fxn (scenario_bandit 1)) (self_turbulence (scenario_bandit 1)) [1 / 2, 1 / 20]
   = ([9 / 10, 1 / 10], [1 / 2, 1 / 20]) \<and>
   self_strategy_fxn (scenario_bandit 1) (self_beliefs (scenario_bandit 1))
     (self_strategy (scenario_bandit 1)) [1 / 2, 1 / 20]
   = ([1 / 2, 1 / 2], [1 / 2, 1 / 20]) \<and>
   next_draw [1 / 2, 1 / 20] = (1 / 2, [1 / 20]) \<and>
   (0::real) \<le> 1 / 2 \<and> round64 (1 / 2) = 1 / 2 \<and>
   bisect (accumulate [1 / 2, 1 / 2]) (1 / 2 :: real) = 1 \<and>
   (0::nat) < 1 \<and> accumulate [1 / 2, 1 / 2] ! 0 \<le> (1 / 2 :: real) \<and>
   (1::nat) < length [1 / 2, 1 / 2 :: real] \<and> (1 / 2 :: real) < accumulate [1 / 2, 1 / 2] ! 1"
proof -
  have nn: "\<forall>q\<in>set [1 / 2, 1 / 2 :: real]. 0 \<le> q" by simp
  have fl: "\<forall>q\<in>set [1 / 2, 1 / 2 :: real]. round64 q = q" by (simp add: round64_half)
  from choice_is_first_arm_above_draw
    [where rand = next_draw, OF scenario_turbulence [of 1] scenario_strategy [of 1] scenario_draws(1) nn fl]
  have k: "bisect (accumulate [1 / 2, 1 / 2]) (1 / 2 :: real) = 1"
    and lo: "\<forall>i < bisect (accumulate [1 / 2, 1 / 2]) (1 / 2 :: real). accumulate [1 / 2, 1 / 2] ! i \<le> (1 / 2 :: real)"
    and hi: "bisect (accumulate [1 / 2, 1 / 2]) (1 / 2 :: real) < length [1 / 2, 1 / 2 :: real]
       \<longrightarrow> (1 / 2 :: real) < accumulate [1 / 2, 1 / 2] ! bisect (accumulate [1 / 2, 1 / 2]) (1 / 2 :: real)"
    by blast+
  have one: "(0::nat) < 1" "(1::nat) < length [1 / 2, 1 / 2 :: real]" by simp_all
  from lo k one(1) have "accumulate [1 / 2, 1 / 2] ! 0 \<le> (1 / 2 :: real)" by metis
  moreover from hi k one(2) have "(1 / 2 :: real) < accumulate [1 / 2, 1 / 2] ! 1" by metis
  ultimately show ?thesis
    using scenario_turbulence [of 1] scenario_strategy [of 1] scenario_draws(1) k one round64_half
    by simp
qed

text \<open>
  Claim C10, evaluated on the code. The strategy function returns the four
  floats \<open>0.1\<close>, \<open>0.5\<close>, \<open>0.3\<close>, \<open>0.1\<close>: one per arm, none negative, and their
  exact sum is 1. The draw is the largest value of \<open>random.random\<close>, 1 minus
  2 to the power -53, which is below 1. The running sums of line 99 are rounded
  after every addition, and the last of them is that same number, not 1. No
  running sum is above the draw, so \<open>bisect.bisect\<close> returns 4, the number of
  arms, and \<open>self._tries[4]\<close> raises \<open>IndexError\<close> at line 104: the turn and
  the run end with that exception.
\<close>

theorem rounded_sums_leave_no_arm_above_draw:
  "init 4 1 next_draw no_turbulence fixed_strategy 0 simplebelief (1 / 2)
     [1 / 2, 1 / 2, 1 / 2, 1 / 2, largest_draw] = Inr (rounding_bandit, [largest_draw]) \<and>
   self_strategy_fxn rounding_bandit (self_beliefs rounding_bandit)
     (self_strategy rounding_bandit) [largest_draw] = (rounding_probabilities, [largest_draw]) \<and>
   length rounding_probabilities = nat (self_arms rounding_bandit) \<and>
   list_all (\<lambda>q. 0 \<le> q \<and> round64 q = q) rounding_probabilities \<and>
   sum_list rounding_probabilities = 1 \<and>
   next_draw [largest_draw] = (largest_draw, []) \<and>
   0 \<le> largest_draw \<and> largest_draw < 1 \<and>
   last (accumulate rounding_probabilities) = largest_draw \<and>
   bisect (accumulate rounding_probabilities) largest_draw = 4 \<and>
   turn next_draw rounding_bandit [largest_draw] = Inl (IndexError 104, rounding_bandit, []) \<and>
   simulate next_draw rounding_bandit [largest_draw] = Inl (IndexError 104, rounding_bandit, [])"
proof -
  have "self_strategy_fxn rounding_bandit (self_beliefs rounding_bandit)
      (self_strategy rounding_bandit) [largest_draw] = (rounding_probabilities, [largest_draw])"
    by (simp add: rounding_bandit_def fixed_strategy_def)
  moreover have "length rounding_probabilities = nat (self_arms rounding_bandit)"
    by (simp add: rounding_probabilities_def rounding_bandit_def)
  moreover have "list_all (\<lambda>q. 0 \<le> q \<and> round64 q = q) rounding_probabilities"
    using rounding_floats round64_half by (simp add: rounding_probabilities_def)
  moreover have "sum_list rounding_probabilities = 1"
    by (simp add: rounding_probabilities_def)
  moreover have "next_draw [largest_draw] = (largest_draw, [])" by (simp add: next_draw_def)
  moreover have "0 \<le> largest_draw" "largest_draw < 1" by (simp_all add: largest_draw_def)
  moreover have "last (accumulate rounding_probabilities) = largest_draw"
    by (simp add: rounding_accumulate largest_draw_def)
  moreover have "simulate next_draw rounding_bandit [largest_draw]
      = Inl (IndexError 104, rounding_bandit, [])"
  proof -
    have "nat (self_turns rounding_bandit) = Suc 0" by (simp add: rounding_bandit_def)
    then show ?thesis by (simp add: simulate_def rounding_turn)
  qed
  ultimately show ?thesis using rounding_init rounding_bisect rounding_turn by simp
qed

subsection \<open>Construction\<close>

text \<open>
  Claim C2, as stated, fails: the constructor checks nothing. With no arms
  and \<open>-1\<close> turns it returns an object whose four lists are empty.
\<close>

theorem init_accepts_empty_configuration:
  "init 0 (- 1) next_draw no_turbulence uniform_strategy 0 simplebelief (1 / 2) []
     = Inr ((scenario_bandit (- 1))\<lparr>self_arms := 0, self_payoffs := [], self_tries := [],
              self_wins := [], self_beliefs := []\<rparr>, [])"
  by (simp add: init_def scenario_bandit_def)

text \<open>
  Claim C2, amended. Construction succeeds for every number of arms and of
  turns, also for \<open>arm_count \<le> 0\<close> and \<open>turn_count < 0\<close>: it returns an
  object that keeps both numbers as given, has \<open>max(0, arm_count)\<close> payoffs,
  tries, wins and beliefs, no asset stock, empty histories, and is not
  complete.
\<close>

theorem init_never_fails:
  "\<exists>b w1. init arms turns pf tf sf tu bf st w = Inr (b, w1) \<and>
     self_arms b = arms \<and> self_turns b = turns \<and> self_assetstock b = 0 \<and>
     self_complete b = False \<and>
     length (self_payoffs b) = nat arms \<and> length (self_tries b) = nat arms \<and>
     length (self_wins b) = nat arms \<and> length (self_beliefs b) = nat arms \<and>
     self_score b = [] \<and> self_knowledge b = [] \<and> self_opinion b = [] \<and>
     self_probexplore b = []"
  by (rule init_result)

subsection \<open>The accessors\<close>

text \<open>
  Claim C3, evaluated on the code. For every configuration with
  \<open>turn_count = 0\<close>, \<open>simulate\<close> returns with the four histories empty and
  \<open>completed\<close> true, as the claim says; but then each of the four accessors
  evaluates \<open>[-1]\<close> on an empty list and raises \<open>IndexError\<close>, where the claim
  says that it returns the "unavailable" result.
\<close>

theorem zero_turn_run_accessors_raise:
  "\<exists>b0 w1 b. init arms 0 pf tf sf tu bf st w = Inr (b0, w1) \<and>
     simulate rand b0 w1 = Inr (b, w1) \<and>
     self_complete b = True \<and>
     self_score b = [] \<and> self_knowledge b = [] \<and> self_opinion b = [] \<and>
     self_probexplore b = [] \<and>
     score b = (Inl (IndexError 129), b) \<and>
     knowledge b = (Inl (IndexError 136), b) \<and>
     opinion b = (Inl (IndexError 142), b) \<and>
     probexplore b = (Inl (IndexError 148), b)"
proof -
  from init_result [of arms 0 pf tf sf tu bf st w] obtain b0 w1 where
    i: "init arms 0 pf tf sf tu bf st w = Inr (b0, w1)" and
    f: "self_turns b0 = 0" "self_score b0 = []" "self_knowledge b0 = []"
       "self_opinion b0 = []" "self_probexplore b0 = []"
    by blast
  let ?b = "b0\<lparr>self_complete := True\<rparr>"
  have s: "simulate rand b0 w1 = Inr (?b, w1)" using f(1) by (simp add: simulate_def)
  have "score ?b = (Inl (IndexError 129), ?b)" using f by (simp add: score_def last_item_def)
  moreover have "knowledge ?b = (Inl (IndexError 136), ?b)"
    using f by (simp add: knowledge_def last_item_def)
  moreover have "opinion ?b = (Inl (IndexError 142), ?b)"
    using f by (simp add: opinion_def last_item_def)
  moreover have "probexplore ?b = (Inl (IndexError 148), ?b)"
    using f by (simp add: probexplore_def last_item_def)
  ultimately show ?thesis using i s f by auto
qed

text \<open>
  Claim C4, evaluated on the code. On a complete object whose history is
  empty, each accessor raises \<open>IndexError\<close> instead of returning a value; the
  object is left as it was. (Before completion the accessors return \<open>None\<close>,
  and on a complete object with a non-empty history its last element: see
  \<open>accessors_before_completion\<close> and \<open>accessors_after_completion\<close>.)
\<close>

theorem accessors_raise_on_empty_history:
  "score (b\<lparr>self_complete := True, self_score := []\<rparr>)
     = (Inl (IndexError 129), b\<lparr>self_complete := True, self_score := []\<rparr>) \<and>
   knowledge (b\<lparr>self_complete := True, self_knowledge := []\<rparr>)
     = (Inl (IndexError 136), b\<lparr>self_complete := True, self_knowledge := []\<rparr>) \<and>
   opinion (b\<lparr>self_complete := True, self_opinion := []\<rparr>)
     = (Inl (IndexError 142), b\<lparr>self_complete := True, self_opinion := []\<rparr>) \<and>
   probexplore (b\<lparr>self_complete := True, self_probexplore := []\<rparr>)
     = (Inl (IndexError 148), b\<lparr>self_complete := True, self_probexplore := []\<rparr>)"
  by (simp add: score_def knowledge_def opinion_def probexplore_def last_item_def)

subsection \<open>The counters\<close>

text \<open>
  Claim C5. After \<open>N\<close> completed turns the tries of all arms add up to \<open>N\<close>,
  for every configuration and every \<open>N\<close>; after a complete run with a
  non-negative \<open>turn_count\<close> they add up to \<open>turn_count\<close>.
\<close>

theorem tries_sum_is_turns_executed:
  assumes "init arms turns pf tf sf tu bf st w0 = Inr (b0, w1)"
  shows "(run_turns rand n b0 w1 = Inr (b, w) \<longrightarrow> sum_list (self_tries b) = int n) \<and>
         (simulate rand b0 w1 = Inr (b', w') \<and> 0 \<le> turns \<longrightarrow> sum_list (self_tries b') = turns)"
proof (intro conjI impI)
  assume "run_turns rand n b0 w1 = Inr (b, w)"
  from run_turns_after_turns [OF init_after_turns [OF assms] this]
  show "sum_list (self_tries b) = int n" by (simp add: after_turns_def)
next
  assume s: "simulate rand b0 w1 = Inr (b', w') \<and> 0 \<le> turns"
  then have "simulate rand b0 w1 = Inr (b', w')" ..
  from simulate_Inr [OF this] obtain b1 where
    r: "run_turns rand (nat (self_turns b0)) b0 w1 = Inr (b1, w')"
    and b': "b' = b1\<lparr>self_complete := True\<rparr>"
    by blast
  from run_turns_after_turns [OF init_after_turns [OF assms] r]
  have "sum_list (self_tries b1) = int (nat (self_turns b0))" by (simp add: after_turns_def)
  then show "sum_list (self_tries b') = turns"
    using s b' init_fields(2) [OF assms] by simp
qed

theorem tries_sum_is_turns_executed_witness:
  "init 2 1 next_draw no_turbulence uniform_strategy 0 simplebelief (1 / 2) scenario_world
     = Inr (scenario_bandit 1, [1 / 2, 1 / 20]) \<and>
   run_turns next_draw (Suc 0) (scenario_bandit 1) [1 / 2, 1 / 20] = Inr (scenario_after 1, []) \<and>
   sum_list (self_tries (scenario_after 1)) = int (Suc 0) \<and>
   simulate next_draw (scenario_bandit 1) [1 / 2, 1 / 20]
     = Inr ((scenario_after 1)\<lparr>self_complete := True\<rparr>, []) \<and>
   (0::int) \<le> 1 \<and>
   sum_list (self_tries ((scenario_after 1)\<lparr>self_complete := True\<rparr>)) = 1"
  using tries_sum_is_turns_executed [OF scenario_init [of 1], of next_draw "Suc 0" "scenario_after 1" "[]"
      "(scenario_after 1)\<lparr>self_complete := True\<rparr>" "[]"]
    scenario_init [of 1] scenario_run [of 1] scenario_simulate
  by simp

text \<open>
  Claim C6. After construction and after each completed turn, the lists of
  tries and wins have one entry per arm and no arm has more wins than tries;
  and from one completed turn to the next, no counter of tries or wins
  decreases.
\<close>

theorem wins_bounded_by_tries_and_counters_grow:
  assumes i: "init arms turns pf tf sf tu bf st w0 = Inr (b0, w1)"
    and r: "run_turns rand n b0 w1 = Inr (b, w)"
  shows "length (self_tries b) = nat arms \<and> length (self_wins b) = nat arms \<and>
         (\<forall>a < nat arms. self_wins b ! a \<le> self_tries b ! a) \<and>
         (\<forall>b' w'. turn rand b w = Inr (b', w') \<longrightarrow>
            (\<forall>a < nat arms. self_tries b ! a \<le> self_tries b' ! a \<and>
                            self_wins b ! a \<le> self_wins b' ! a))"
proof -
  from run_turns_after_turns [OF init_after_turns [OF i] r]
  have a: "after_turns n b" by simp
  have arms: "self_arms b = arms" using run_turns_config [OF r] init_fields(1) [OF i] by simp
  have lt: "length (self_tries b) = nat arms" and lw: "length (self_wins b) = nat arms"
    using a arms by (simp_all add: after_turns_def)
  have le: "\<forall>a < nat arms. self_wins b ! a \<le> self_tries b ! a"
    using a lt by (simp add: after_turns_def)
  have mono: "\<forall>a < nat arms. self_tries b ! a \<le> self_tries b' ! a \<and> self_wins b ! a \<le> self_wins b' ! a"
    if t: "turn rand b w = Inr (b', w')" for b' w'
  proof (intro allI impI)
    fix j assume j: "j < nat arms"
    from turn_Inr [OF t] obtain c ws where
      tr: "self_tries b' = (self_tries b)[c := self_tries b ! c + 1]" and
      ws: "self_wins b' = ws" and
      wa: "ws = (self_wins b)[c := self_wins b ! c + 1] \<or> ws = self_wins b"
      by auto
    have "self_tries b ! j \<le> self_tries b' ! j"
      using tr j lt by (cases "j = c") simp_all
    moreover have "self_wins b ! j \<le> self_wins b' ! j"
      using wa ws j lw by (cases "j = c") auto
    ultimately show "self_tries b ! j \<le> self_tries b' ! j \<and> self_wins b ! j \<le> self_wins b' ! j" ..
  qed
  from lt lw le mono show ?thesis by blast
qed

theorem wins_bounded_by_tries_and_counters_grow_witness:
  "init 2 1 next_draw no_turbulence uniform_strategy 0 simplebelief (1 / 2) scenario_world
     = Inr (scenario_bandit 1, [1 / 2, 1 / 20]) \<and>
   run_turns next_draw 0 (scenario_bandit 1) [1 / 2, 1 / 20] = Inr (scenario_bandit 1, [1 / 2, 1 / 20]) \<and>
   turn next_draw (scenario_bandit 1) [1 / 2, 1 / 20] = Inr (scenario_after 1, []) \<and>
   (1::nat) < nat 2 \<and>
   self_wins (scenario_bandit 1) ! 1 \<le> self_tries (scenario_bandit 1) ! 1 \<and>
   self_tries (scenario_bandit 1) ! 1 \<le> self_tries (scenario_after 1) ! 1 \<and>
   self_wins (scenario_bandit 1) ! 1 \<le> self_wins (scenario_after 1) ! 1"
proof -
  have r0: "run_turns next_draw 0 (scenario_bandit 1) [1 / 2, 1 / 20]
      = Inr (scenario_bandit 1, [1 / 2, 1 / 20])" by simp
  have one: "(1::nat) < nat 2" by simp
  from wins_bounded_by_tries_and_counters_grow [OF scenario_init [of 1] r0]
  have "(\<forall>a < nat 2. self_wins (scenario_bandit 1) ! a \<le> self_tries (scenario_bandit 1) ! a)"
    and "\<forall>b' w'. turn next_draw (scenario_bandit 1) [1 / 2, 1 / 20] = Inr (b', w') \<longrightarrow>
            (\<forall>a < nat 2. self_tries (scenario_bandit 1) ! a \<le> self_tries b' ! a \<and>
                            self_wins (scenario_bandit 1) ! a \<le> self_wins b' ! a)"
    by blast+
  with scenario_turn [of 1] one scenario_init [of 1] r0 show ?thesis by blast
qed

subsection \<open>The histories\<close>

text \<open>
  Claim C7. After \<open>N\<close> completed turns each of the four histories has exactly
  \<open>N\<close> entries, so they are equally long; after a complete run each has as
  many entries as turns were run (\<open>turn_count\<close>, or none when it is negative).
\<close>

theorem histories_have_one_entry_per_turn:
  assumes "init arms turns pf tf sf tu bf st w0 = Inr (b0, w1)"
  shows "(run_turns rand n b0 w1 = Inr (b, w) \<longrightarrow>
            length (self_score b) = n \<and> length (self_knowledge b) = n \<and>
            length (self_opinion b) = n \<and> length (self_probexplore b) = n) \<and>
         (simulate rand b0 w1 = Inr (b', w') \<longrightarrow>
            length (self_score b') = nat turns \<and> length (self_knowledge b') = nat turns \<and>
            length (self_opinion b') = nat turns \<and> length (self_probexplore b') = nat turns)"
proof (intro conjI impI)
  assume "run_turns rand n b0 w1 = Inr (b, w)"
  from run_turns_after_turns [OF init_after_turns [OF assms] this]
  have a: "after_turns n b" by simp
  from a show "length (self_score b) = n" by (simp add: after_turns_def)
  from a show "length (self_knowledge b) = n" by (simp add: after_turns_def)
  from a show "length (self_opinion b) = n" by (simp add: after_turns_def)
  from a show "length (self_probexplore b) = n" by (simp add: after_turns_def)
next
  assume "simulate rand b0 w1 = Inr (b', w')"
  from simulate_Inr [OF this] obtain b1 where
    r: "run_turns rand (nat (self_turns b0)) b0 w1 = Inr (b1, w')"
    and b': "b' = b1\<lparr>self_complete := True\<rparr>"
    by blast
  from run_turns_after_turns [OF init_after_turns [OF assms] r] init_fields(2) [OF assms]
  have a: "after_turns (nat turns) b1" by simp
  from a b' show "length (self_score b') = nat turns" by (simp add: after_turns_def)
  from a b' show "length (self_knowledge b') = nat turns" by (simp add: after_turns_def)
  from a b' show "length (self_opinion b') = nat turns" by (simp add: after_turns_def)
  from a b' show "length (self_probexplore b') = nat turns" by (simp add: after_turns_def)
qed

theorem histories_have_one_entry_per_turn_witness:
  "init 2 1 next_draw no_turbulence uniform_strategy 0 simplebelief (1 / 2) scenario_world
     = Inr (scenario_bandit 1, [1 / 2, 1 / 20]) \<and>
   run_turns next_draw (Suc 0) (scenario_bandit 1) [1 / 2, 1 / 20] = Inr (scenario_after 1, []) \<and>
   length (self_score (scenario_after 1)) = Suc 0 \<and>
   length (self_knowledge (scenario_after 1)) = Suc 0 \<and>
   length (self_opinion (scenario_after 1)) = Suc 0 \<and>
   length (self_probexplore (scenario_after 1)) = Suc 0 \<and>
   simulate next_draw (scenario_bandit 1) [1 / 2, 1 / 20]
     = Inr ((scenario_after 1)\<lparr>self_complete := True\<rparr>, []) \<and>
   length (self_score ((scenario_after 1)\<lparr>self_complete := True\<rparr>)) = nat 1"
  using histories_have_one_entry_per_turn [OF scenario_init [of 1], of next_draw "Suc 0"
      "scenario_after 1" "[]" "(scenario_after 1)\<lparr>self_complete := True\<rparr>" "[]"]
    scenario_init [of 1] scenario_run [of 1] scenario_simulate
  by simp

subsection \<open>The outcome of a turn\<close>

text \<open>
  Claim C8. Take a turn in which the three subscripts of lines 104 to 106 are
  in range and the policy functions return well-formed results, so that the
  metrics of lines 117 to 119 do not raise. The turn completes; the try of the
  chosen arm is counted; when the second draw is strictly below the payoff of
  the chosen arm (the payoffs being those that the turbulence function returned
  in this turn), the win of that arm is counted and the asset stock grows by 1,
  otherwise the wins stay and the asset stock falls by 1; and the score
  appended is the asset stock after that update.
\<close>

theorem outcome_counts_try_then_win_or_loss:
  assumes tf: "self_turbulence_fxn b (self_payoffs b) (self_payoff_fxn b) (self_turbulence b) w = (p, w1)"
    and sf: "self_strategy_fxn b (self_beliefs b) (self_strategy b) w1 = (cp, w2)"
    and rx: "rand w2 = (x, w3)"
    and ry: "rand w3 = (y, w4)"
    and c: "c = bisect (accumulate cp) x"
    and ct: "c < length (self_tries b)"
    and cl: "c < length p"
    and cw: "y < p ! c \<Longrightarrow> c < length (self_wins b)"
    and bf: "self_belief_fxn b (self_beliefs b) ((self_tries b)[c := self_tries b ! c + 1])
               (if y < p ! c then (self_wins b)[c := self_wins b ! c + 1] else self_wins b) w4
             = (bel, w5)"
    and lb: "nat (self_arms b) \<le> length bel"
    and lp: "nat (self_arms b) \<le> length p"
    and ne: "cp \<noteq> []"
  shows "\<exists>b'. turn rand b w = Inr (b', w5) \<and>
           self_tries b' = (self_tries b)[c := self_tries b ! c + 1] \<and>
           (if y < p ! c
            then self_wins b' = (self_wins b)[c := self_wins b ! c + 1] \<and>
                 self_assetstock b' = self_assetstock b + 1
            else self_wins b' = self_wins b \<and> self_assetstock b' = self_assetstock b - 1) \<and>
           self_score b' = self_score b @ [self_assetstock b']"
proof -
  let ?b1 = "b\<lparr>self_payoffs := p\<rparr>"
  let ?tr = "(self_tries b)[c := self_tries b ! c + 1]"
  have tc: "turn_choice rand b w = (?b1, cp, c, w3)"
    unfolding c using tf sf rx by (rule turn_choice_eq [where rand = rand])
  show ?thesis
  proof (cases "y < p ! c")
    case True
    let ?b2 = "?b1\<lparr>self_tries := ?tr, self_wins := (self_wins b)[c := self_wins b ! c + 1],
                   self_assetstock := self_assetstock b + 1\<rparr>"
    have to: "turn_outcome rand c ?b1 w3 = Inr (?b2, w4)"
      using ry ct cl cw [OF True] True by (simp add: turn_outcome_def)
    have tb: "turn_beliefs ?b2 w4 = (?b2\<lparr>self_beliefs := bel\<rparr>, w5)"
      using bf True by (simp add: turn_beliefs_def)
    obtain b' where tm: "turn_metrics cp (?b2\<lparr>self_beliefs := bel\<rparr>) w5 = Inr (b', w5)"
      and f: "self_tries b' = ?tr" "self_wins b' = (self_wins b)[c := self_wins b ! c + 1]"
        "self_assetstock b' = self_assetstock b + 1"
        "self_score b' = self_score b @ [self_assetstock b + 1]"
      using lb lp ne by (simp add: turn_metrics_def Let_def)
    have "turn rand b w = Inr (b', w5)" by (simp add: turn_def tc to tb tm)
    with f True show ?thesis by simp
  next
    case False
    let ?b2 = "?b1\<lparr>self_tries := ?tr, self_assetstock := self_assetstock b - 1\<rparr>"
    have to: "turn_outcome rand c ?b1 w3 = Inr (?b2, w4)"
      using ry ct cl False by (simp add: turn_outcome_def)
    have tb: "turn_beliefs ?b2 w4 = (?b2\<lparr>self_beliefs := bel\<rparr>, w5)"
      using bf False by (simp add: turn_beliefs_def)
    obtain b' where tm: "turn_metrics cp (?b2\<lparr>self_beliefs := bel\<rparr>) w5 = Inr (b', w5)"
      and f: "self_tries b' = ?tr" "self_wins b' = self_wins b"
        "self_assetstock b' = self_assetstock b - 1"
        "self_score b' = self_score b @ [self_assetstock b - 1]"
      using lb lp ne by (simp add: turn_metrics_def Let_def)
    have "turn rand b w = Inr (b', w5)" by (simp add: turn_def tc to tb tm)
    with f False show ?thesis by simp
  qed
qed

theorem outcome_counts_try_then_win_or_loss_witness:
  "next_draw [1 / 2, 1 / 20] = (1 / 2, [1 / 20]) \<and> next_draw [1 / 20] = (1 / 20, []) \<and>
   next_draw [1 / 2, 1 / 5] = (1 / 2, [1 / 5]) \<and> next_draw [1 / 5] = (1 / 5, []) \<and>
   bisect (accumulate [1 / 2, 1 / 2]) (1 / 2 :: real) = 1 \<and>
   (1 / 20 :: real) < [9 / 10, 1 / 10] ! 1 \<and> \<not> (1 / 5 :: real) < [9 / 10, 1 / 10] ! 1 \<and>
   (\<exists>b'. turn next_draw (scenario_bandit 1) [1 / 2, 1 / 20] = Inr (b', []) \<and>
      self_tries b' = [0, 1] \<and> self_wins b' = [0, 1] \<and> self_assetstock b' = 1 \<and>
      self_score b' = [1]) \<and>
   (\<exists>b'. turn next_draw (scenario_bandit 1) [1 / 2, 1 / 5] = Inr (b', []) \<and>
      self_tries b' = [0, 1] \<and> self_wins b' = [0, 0] \<and> self_assetstock b' = - 1 \<and>
      self_score b' = [- 1])"
proof -
  have c: "(1::nat) = bisect (accumulate [1 / 2, 1 / 2]) (1 / 2 :: real)"
    by (rule scenario_bisect [symmetric])
  have l: "(1::nat) < length (self_tries (scenario_bandit 1))" "(1::nat) < length [9 / 10, 1 / 10 :: real]"
    "nat (self_arms (scenario_bandit 1)) \<le> length [9 / 10, 1 / 10 :: real]"
    "[1 / 2, 1 / 2 :: real] \<noteq> []"
    by (simp_all add: scenario_counters scenario_fields)
  have lw: "(1::nat) < length (self_wins (scenario_bandit 1))" by (simp add: scenario_counters)
  have bw: "self_belief_fxn (scenario_bandit 1) (self_beliefs (scenario_bandit 1))
      ((self_tries (scenario_bandit 1))[1 := self_tries (scenario_bandit 1) ! 1 + 1])
      (if (1 / 20 :: real) < [9 / 10, 1 / 10] ! 1
       then (self_wins (scenario_bandit 1))[1 := self_wins (scenario_bandit 1) ! 1 + 1]
       else self_wins (scenario_bandit 1)) []
      = ([1 / 2, 2 / 3], [])"
    by (simp add: scenario_counters scenario_fields simplebelief_def)
  have bl: "self_belief_fxn (scenario_bandit 1) (self_beliefs (scenario_bandit 1))
      ((self_tries (scenario_bandit 1))[1 := self_tries (scenario_bandit 1) ! 1 + 1])
      (if (1 / 5 :: real) < [9 / 10, 1 / 10] ! 1
       then (self_wins (scenario_bandit 1))[1 := self_wins (scenario_bandit 1) ! 1 + 1]
       else self_wins (scenario_bandit 1)) []
      = ([1 / 2, 1 / 3], [])"
    by (simp add: scenario_counters scenario_fields simplebelief_def)
  have lbel: "nat (self_arms (scenario_bandit 1)) \<le> length [1 / 2, 2 / 3 :: real]"
    "nat (self_arms (scenario_bandit 1)) \<le> length [1 / 2, 1 / 3 :: real]"
    by (simp_all add: scenario_fields)
  from outcome_counts_try_then_win_or_loss
    [where rand = next_draw, OF scenario_turbulence [of 1] scenario_strategy [of 1]
      scenario_draws(1) scenario_draws(2) c l(1) l(2) lw bw lbel(1) l(3) l(4)]
  have win: "\<exists>b'. turn next_draw (scenario_bandit 1) [1 / 2, 1 / 20] = Inr (b', []) \<and>
      self_tries b' = [0, 1] \<and> self_wins b' = [0, 1] \<and> self_assetstock b' = 1 \<and>
      self_score b' = [1]"
    by (auto simp: scenario_counters)
  from outcome_counts_try_then_win_or_loss
    [where rand = next_draw, OF scenario_loss_policies(1) [of 1] scenario_loss_policies(2) [of 1]
      scenario_loss_draws(1) scenario_loss_draws(2) c l(1) l(2) lw bl lbel(2) l(3) l(4)]
  have loss: "\<exists>b'. turn next_draw (scenario_bandit 1) [1 / 2, 1 / 5] = Inr (b', []) \<and>
      self_tries b' = [0, 1] \<and> self_wins b' = [0, 0] \<and> self_assetstock b' = - 1 \<and>
      self_score b' = [- 1]"
    by (auto simp: scenario_counters)
  from win loss scenario_draws scenario_loss_draws scenario_bisect show ?thesis by simp
qed

text \<open>
  Claim C9. After construction and after each completed turn the asset stock
  is twice the sum of the wins minus the sum of the tries; and for every turn
  \<open>t\<close> completed so far, the entry \<open>t\<close> of the score history is twice the
  number of wins after turn \<open>t\<close> minus \<open>t + 1\<close>.
\<close>

theorem asset_stock_is_wins_minus_losses:
  assumes i: "init arms turns pf tf sf tu bf st w0 = Inr (b0, w1)"
    and r: "run_turns rand n b0 w1 = Inr (b, w)"
  shows "self_assetstock b = 2 * sum_list (self_wins b) - sum_list (self_tries b) \<and>
         (\<forall>t<n. \<exists>bt wt. run_turns rand (Suc t) b0 w1 = Inr (bt, wt) \<and>
                   self_score b ! t = 2 * sum_list (self_wins bt) - (int t + 1))"
proof
  from run_turns_after_turns [OF init_after_turns [OF i] r]
  show "self_assetstock b = 2 * sum_list (self_wins b) - sum_list (self_tries b)"
    by (simp add: after_turns_def)
next
  show "\<forall>t<n. \<exists>bt wt. run_turns rand (Suc t) b0 w1 = Inr (bt, wt) \<and>
                   self_score b ! t = 2 * sum_list (self_wins bt) - (int t + 1)"
  proof (intro allI impI)
    fix t assume "t < n"
    then have "n = Suc t + (n - Suc t)" by simp
    with r have "run_turns rand (Suc t + (n - Suc t)) b0 w1 = Inr (b, w)" by simp
    from run_turns_split [OF this] obtain bt wt where
      rt: "run_turns rand (Suc t) b0 w1 = Inr (bt, wt)" and
      rest: "run_turns rand (n - Suc t) bt wt = Inr (b, w)" by blast
    from run_turns_after_turns [OF init_after_turns [OF i] rt]
    have a: "after_turns (Suc t) bt" by simp
    then have len: "length (self_score bt) = Suc t" by (simp add: after_turns_def)
    then have ne: "self_score bt \<noteq> []" by auto
    from a ne have "last (self_score bt) = 2 * sum_list (self_wins bt) - (int t + 1)"
      by (simp add: after_turns_def)
    moreover have "last (self_score bt) = self_score bt ! t"
      using ne len by (simp add: last_conv_nth)
    moreover from run_turns_score_prefix [OF rest] obtain ys where
      "self_score b = self_score bt @ ys" by blast
    then have "self_score b ! t = self_score bt ! t" using len by (simp add: nth_append)
    ultimately have "self_score b ! t = 2 * sum_list (self_wins bt) - (int t + 1)" by simp
    with rt show "\<exists>bt wt. run_turns rand (Suc t) b0 w1 = Inr (bt, wt) \<and>
                   self_score b ! t = 2 * sum_list (self_wins bt) - (int t + 1)" by blast
  qed
qed

theorem asset_stock_is_wins_minus_losses_witness:
  "init 2 1 next_draw no_turbulence uniform_strategy 0 simplebelief (1 / 2) scenario_world
     = Inr (scenario_bandit 1, [1 / 2, 1 / 20]) \<and>
   run_turns next_draw (Suc 0) (scenario_bandit 1) [1 / 2, 1 / 20] = Inr (scenario_after 1, []) \<and>
   self_assetstock (scenario_after 1)
     = 2 * sum_list (self_wins (scenario_after 1)) - sum_list (self_tries (scenario_after 1)) \<and>
   (0::nat) < Suc 0 \<and>
   self_score (scenario_after 1) ! 0 = 2 * sum_list (self_wins (scenario_after 1)) - (int 0 + 1)"
proof -
  from asset_stock_is_wins_minus_losses [OF scenario_init [of 1] scenario_run [of 1]]
  have a: "self_assetstock (scenario_after 1)
     = 2 * sum_list (self_wins (scenario_after 1)) - sum_list (self_tries (scenario_after 1))"
    and h: "\<forall>t<Suc 0. \<exists>bt wt. run_turns next_draw (Suc t) (scenario_bandit 1) [1 / 2, 1 / 20] = Inr (bt, wt) \<and>
                   self_score (scenario_after 1) ! t = 2 * sum_list (self_wins bt) - (int t + 1)"
    by blast+
  from h have "\<exists>bt wt. run_turns next_draw (Suc 0) (scenario_bandit 1) [1 / 2, 1 / 20] = Inr (bt, wt) \<and>
                   self_score (scenario_after 1) ! 0 = 2 * sum_list (self_wins bt) - (int 0 + 1)"
    by blast
  then have "self_score (scenario_after 1) ! 0 = 2 * sum_list (self_wins (scenario_after 1)) - (int 0 + 1)"
    unfolding scenario_run [of 1] by auto
  with a scenario_init [of 1] scenario_run [of 1] show ?thesis by simp
qed

end
